theory Spec2Isabelle
  imports Complex_Main
begin

section \<open>Global configuration parameters\<close>

text \<open>
  The second code cell of the notebook \<^verbatim>\<open>4_Dynamic_LSTM_RNN.ipynb\<close>. Python's \<^verbatim>\<open>//\<close> on
  non-negative integers is \<open>div\<close> on \<open>nat\<close>. The learning rate \<^verbatim>\<open>eta = 0.01\<close> is only handed
  to the library optimizer and is not modelled.
\<close>

definition n_epochs :: nat where
  "n_epochs = 20"

definition total_series_length :: nat where
  "total_series_length = 50000"

definition truncated_backprop_steps :: nat where
  "truncated_backprop_steps = 15"

definition state_size :: nat where
  "state_size = 4"

definition n_classes :: nat where
  "n_classes = 2"

definition echo_step :: nat where
  "echo_step = 3"

definition batch_size :: nat where
  "batch_size = 5"

definition n_batches :: nat where
  "n_batches = total_series_length div batch_size div truncated_backprop_steps"

definition n_hidden :: nat where
  "n_hidden = 20"

section \<open>Exceptions\<close>

text \<open>
  Every raise is a value. \<open>ValueError\<close> is what numpy's \<^verbatim>\<open>reshape\<close> and the session's feed
  check raise; \<open>LibraryError\<close> stands for any other exception raised inside a library call,
  with its message.
\<close>

datatype py_exn = ValueError | LibraryError string

section \<open>The numpy operations used by generateData\<close>

text \<open>
  One-dimensional arrays are lists, two-dimensional arrays are lists of rows.

  \<^verbatim>\<open>np.roll(a, shift)\<close> on a one-dimensional array: with \<open>offset = shift mod n\<close>, the last
  \<open>offset\<close> elements move to the front and the others move right by \<open>offset\<close>.
\<close>

definition np_roll :: "'a list \<Rightarrow> nat \<Rightarrow> 'a list" where
  "np_roll a shift =
     (let n = length a
      in if n = 0 then a
         else let offset = shift mod n
              in drop (n - offset) a @ take (n - offset) a)"

text \<open>
  The slice assignment \<^verbatim>\<open>a[0:stop] = v\<close>: the slice is clipped to the array, every position
  in it receives \<open>v\<close>, the length does not change.
\<close>

definition assign_prefix :: "'a list \<Rightarrow> nat \<Rightarrow> 'a \<Rightarrow> 'a list" where
  "assign_prefix a stop v = replicate (min stop (length a)) v @ drop stop a"

text \<open>
  \<^verbatim>\<open>a.reshape((rows, -1))\<close> on a one-dimensional array: numpy infers the number of columns
  as \<open>length a div rows\<close> and raises ValueError when the size is not a multiple of \<open>rows\<close>
  (or \<open>rows\<close> is zero); the result is laid out row-major.
\<close>

definition reshape_rows :: "nat \<Rightarrow> 'a list \<Rightarrow> py_exn + 'a list list" where
  "reshape_rows rows a =
     (if rows = 0 \<or> length a mod rows \<noteq> 0 then Inl ValueError
      else let cols = length a div rows
           in Inr (map (\<lambda>i. take cols (drop (i * cols) a)) [0..<rows]))"

text \<open>
  The contract of \<^verbatim>\<open>np.random.choice(n, size)\<close> with an integer \<open>n\<close>: an array of \<open>size\<close>
  samples from \<^verbatim>\<open>np.arange(n)\<close>. The sample itself is the library's; the model takes it
  as an argument.
\<close>

definition random_choice_post :: "nat \<Rightarrow> nat \<Rightarrow> int list \<Rightarrow> bool" where
  "random_choice_post n sz a \<longleftrightarrow> length a = sz \<and> list_all (\<lambda>v. 0 \<le> v \<and> v < int n) a"

section \<open>generateData\<close>

text \<open>
  \<^verbatim>\<open>
  def generateData():
      x = np.array(np.random.choice(n_classes, total_series_length))
      y = np.roll(x, echo_step)
      y[0:echo_step] = 0
      x = x.reshape((batch_size, -1))
      y = y.reshape((batch_size, -1))
      return(x, y)
  \<close>
  The argument \<open>choice\<close> is the array returned by
  \<^verbatim>\<open>np.random.choice(n_classes, total_series_length)\<close>. \<^verbatim>\<open>np.roll\<close> returns a new array,
  so the assignment into \<open>y\<close> leaves \<open>x\<close> as it is.
\<close>

definition generateData :: "int list \<Rightarrow> py_exn + (int list list \<times> int list list)" where
  "generateData choice =
     (let x = choice;
          y = np_roll x echo_step;
          y = assign_prefix y echo_step 0
      in case reshape_rows batch_size x of
           Inl e \<Rightarrow> Inl e
         | Inr x' \<Rightarrow>
             (case reshape_rows batch_size y of
                Inl e \<Rightarrow> Inl e
              | Inr y' \<Rightarrow> Inr (x', y')))"

section \<open>Placeholders and the feed check\<close>

text \<open>
  \<^verbatim>\<open>
  X_placeholder = tf.placeholder(tf.float32, shape=[batch_size, truncated_backprop_steps])
  y_placeholder = tf.placeholder(tf.int32, shape=[batch_size, truncated_backprop_steps])
  cell_state = tf.placeholder(tf.float32, shape=[batch_size, n_hidden])
  hidden_state = tf.placeholder(tf.float32, shape=[batch_size, n_hidden])
  \<close>
  A placeholder has a static shape whose dimensions are known (\<open>Some n\<close>) or left open
  (\<open>None\<close>, Python's \<^verbatim>\<open>None\<close>). The notebook gives every dimension.
\<close>

datatype tf_dtype = Float32 | Int32

record placeholder =
  dtype :: tf_dtype
  static_shape :: "nat option list"

definition X_placeholder :: placeholder where
  "X_placeholder =
     \<lparr>dtype = Float32, static_shape = [Some batch_size, Some truncated_backprop_steps]\<rparr>"

definition y_placeholder :: placeholder where
  "y_placeholder =
     \<lparr>dtype = Int32, static_shape = [Some batch_size, Some truncated_backprop_steps]\<rparr>"

definition cell_state :: placeholder where
  "cell_state = \<lparr>dtype = Float32, static_shape = [Some batch_size, Some n_hidden]\<rparr>"

definition hidden_state :: placeholder where
  "hidden_state = \<lparr>dtype = Float32, static_shape = [Some batch_size, Some n_hidden]\<rparr>"

text \<open>
  The library's \<^verbatim>\<open>TensorShape.is_compatible_with\<close>: same rank, and every known dimension
  equal to the value's.
\<close>

definition is_compatible_with :: "nat option list \<Rightarrow> nat list \<Rightarrow> bool" where
  "is_compatible_with ps vs =
     list_all2 (\<lambda>d n. case d of None \<Rightarrow> True | Some m \<Rightarrow> m = n) ps vs"

text \<open>
  The shape \<^verbatim>\<open>np.asarray\<close> gives a list of rows: \<open>(rows, cols)\<close> when all rows have one
  length, \<open>(0,)\<close> for the empty list, and no numeric array at all when the rows are ragged.
\<close>

definition np_shape :: "'a list list \<Rightarrow> nat list option" where
  "np_shape m =
     (case m of
        [] \<Rightarrow> Some [0]
      | r # rs \<Rightarrow>
          if list_all (\<lambda>r'. length r' = length r) rs then Some [length m, length r]
          else None)"

definition feed_compatible :: "placeholder \<Rightarrow> 'a list list \<Rightarrow> bool" where
  "feed_compatible p v =
     (case np_shape v of None \<Rightarrow> False | Some s \<Rightarrow> is_compatible_with (static_shape p) s)"

text \<open>
  The \<^verbatim>\<open>feed_dict\<close> of the training loop, one field per placeholder, and the check
  \<^verbatim>\<open>Session.run\<close> makes before it computes anything: a fed value whose shape is not
  compatible with its placeholder raises ValueError. Float values are idealised as reals.
\<close>

type_synonym lstm_state = "real list list \<times> real list list"

record feed_dict =
  fd_X :: "int list list"
  fd_y :: "int list list"
  fd_cell_state :: "real list list"
  fd_hidden_state :: "real list list"

definition feed_check :: "feed_dict \<Rightarrow> bool" where
  "feed_check fd \<longleftrightarrow>
     feed_compatible X_placeholder (fd_X fd) \<and> feed_compatible y_placeholder (fd_y fd) \<and>
     feed_compatible cell_state (fd_cell_state fd) \<and>
     feed_compatible hidden_state (fd_hidden_state fd)"

section \<open>The loss path\<close>

text \<open>
  \<^verbatim>\<open>
  temp = tf.reshape(outputs, [-1, n_hidden])
  y_temp = tf.reshape(y_placeholder, [-1])
  V = tf.Variable(tf.random_normal([n_hidden, n_classes]))
  c = tf.Variable(tf.random_normal([n_classes]))
  l = tf.matmul(temp,V)+c
  loss = tf.reduce_mean(tf.nn.sparse_softmax_cross_entropy_with_logits(labels=y_temp,
                                                                       logits=l))
  \<close>
  \<open>outputs\<close> is the first result of \<^verbatim>\<open>tf.nn.dynamic_rnn\<close>, a tensor of rank three (batch,
  time, unit). Tensors are nested lists in row-major order; float32 values are idealised
  as reals, so rounding is not part of the model.

  \<^verbatim>\<open>tf.reshape(t, [-1, cols])\<close> flattens \<open>t\<close> row-major and cuts it into rows of \<open>cols\<close>
  elements; it raises when the size is not a multiple of \<open>cols\<close>.
\<close>

definition tf_reshape_cols :: "nat \<Rightarrow> 'a list \<Rightarrow> py_exn + 'a list list" where
  "tf_reshape_cols cols flat =
     (if cols = 0 \<or> length flat mod cols \<noteq> 0 then Inl ValueError
      else Inr (map (\<lambda>i. take cols (drop (i * cols) flat)) [0..<length flat div cols]))"

definition temp :: "real list list list \<Rightarrow> py_exn + real list list" where
  "temp outputs = tf_reshape_cols n_hidden (concat (concat outputs))"

definition y_temp :: "int list list \<Rightarrow> int list" where
  "y_temp y = concat y"

text \<open>
  \<^verbatim>\<open>tf.matmul(a, b)\<close> on matrices: the inner dimensions must agree, else ValueError.
  \<^verbatim>\<open>m + bias\<close> with a matrix and a vector broadcasts the vector over the rows: the row
  length and the vector length must be equal or one of them 1, and a dimension of size 1
  is stretched to the other.
\<close>

definition n_cols :: "'a list list \<Rightarrow> nat" where
  "n_cols m = (case m of [] \<Rightarrow> 0 | r # _ \<Rightarrow> length r)"

definition tf_matmul :: "real list list \<Rightarrow> real list list \<Rightarrow> py_exn + real list list" where
  "tf_matmul a b =
     (if list_all (\<lambda>row. length row = length b) a \<and> list_all (\<lambda>row. length row = n_cols b) b
      then Inr (map (\<lambda>row. map (\<lambda>k. \<Sum>j\<leftarrow>[0..<length b]. row ! j * b ! j ! k) [0..<n_cols b]) a)
      else Inl ValueError)"

definition tf_add_bias :: "real list list \<Rightarrow> real list \<Rightarrow> py_exn + real list list" where
  "tf_add_bias m bias =
     (let w = n_cols m;
          n = length bias
      in if list_all (\<lambda>row. length row = w) m \<and> (w = n \<or> w = 1 \<or> n = 1)
         then Inr (map (\<lambda>row. map (\<lambda>k. row ! (if w = 1 then 0 else k)
                                        + bias ! (if n = 1 then 0 else k))
                                  [0..<max w n]) m)
         else Inl ValueError)"

definition l :: "real list list list \<Rightarrow> real list list \<Rightarrow> real list \<Rightarrow> py_exn + real list list" where
  "l outputs V c =
     (case temp outputs of
        Inl e \<Rightarrow> Inl e
      | Inr t \<Rightarrow> (case tf_matmul t V of Inl e \<Rightarrow> Inl e | Inr tv \<Rightarrow> tf_add_bias tv c))"

text \<open>
  \<^verbatim>\<open>tf.nn.sparse_softmax_cross_entropy_with_logits\<close> works position by position: one
  integer label and one row of logits give one value. What it computes there is the
  library's, the argument \<open>xent\<close>. \<^verbatim>\<open>tf.reduce_mean\<close> is the arithmetic mean.
\<close>

definition sparse_softmax_cross_entropy_with_logits ::
  "(int \<Rightarrow> real list \<Rightarrow> real) \<Rightarrow> int list \<Rightarrow> real list list \<Rightarrow> py_exn + real list" where
  "sparse_softmax_cross_entropy_with_logits xent labels logits =
     (if length labels = length logits then Inr (map2 xent labels logits) else Inl ValueError)"

definition reduce_mean :: "real list \<Rightarrow> real" where
  "reduce_mean xs = sum_list xs / real (length xs)"

definition loss ::
  "(int \<Rightarrow> real list \<Rightarrow> real) \<Rightarrow> real list list list \<Rightarrow> int list list \<Rightarrow>
   real list list \<Rightarrow> real list \<Rightarrow> py_exn + real" where
  "loss xent outputs y V c =
     (case l outputs V c of
        Inl e \<Rightarrow> Inl e
      | Inr logits \<Rightarrow>
          (case sparse_softmax_cross_entropy_with_logits xent (y_temp y) logits of
             Inl e \<Rightarrow> Inl e
           | Inr losses \<Rightarrow> Inr (reduce_mean losses)))"

text \<open>
  What the library's cross entropy computes at one position for a valid label: the
  negative logarithm of the softmax probability of the label.
\<close>

definition softmax_cross_entropy :: "int \<Rightarrow> real list \<Rightarrow> real" where
  "softmax_cross_entropy label logits = ln (\<Sum>z\<leftarrow>logits. exp z) - logits ! nat label"

section \<open>The library behind the notebook\<close>

text \<open>
  The top-level statements before the session, in the order of the cells. \<open>Config\<close> and
  \<open>DefGenerateData\<close> are plain Python (assignments and a \<^verbatim>\<open>def\<close>); the others call the
  library.
\<close>

datatype stmt =
    Imports | Config | DefGenerateData | Placeholders | LSTMCell | DynamicRnn
  | ReshapeOutputs | Logits | Loss | Optimizer

text \<open>
  What the notebook does not implement is a parameter: whether a graph-building statement
  raises (\<open>construct\<close>), the creation of the session and the initialisation of its variables
  (\<open>session_init\<close>), the sample drawn by \<^verbatim>\<open>np.random.choice\<close> in each epoch
  (\<open>random_choice\<close>), the numerical work of one \<^verbatim>\<open>sess.run([loss, optimizer, final_state])\<close>
  on the session's variables \<open>'v\<close> (\<open>run_fetches\<close>: the loss, the updated variables and
  the final LSTM state) and the plotting calls (\<open>plt_plot\<close>).
\<close>

record 'v library =
  construct :: "stmt \<Rightarrow> py_exn + unit"
  session_init :: "py_exn + 'v"
  random_choice :: "nat \<Rightarrow> int list"
  run_fetches :: "'v \<Rightarrow> feed_dict \<Rightarrow> py_exn + (real \<times> 'v \<times> lstm_state)"
  plt_plot :: "real list \<Rightarrow> py_exn + unit"

text \<open>
  The run is observed through the sequence of its operations: every library call with
  what it returned or raised, and every line printed. The loop indices at a call are
  recorded with it.
\<close>

datatype 'v event =
    Exec stmt "py_exn + unit"
  | SessionInit "py_exn + 'v"
  | PrintBlank
  | PrintEpoch nat
  | PrintStep nat real
  | CallGenerateData nat "py_exn + (int list list \<times> int list list)"
  | SessRun nat nat feed_dict "py_exn + (real \<times> 'v \<times> lstm_state)"
  | Plot "real list" "py_exn + unit"

record 'v globals =
  sess :: 'v
  training_losses :: "real list"
  trace :: "'v event list"

section \<open>The cells before the session\<close>

definition graph_cells :: "stmt list" where
  "graph_cells =
     [Imports, Config, DefGenerateData, Placeholders, LSTMCell, DynamicRnn,
      ReshapeOutputs, Logits, Loss, Optimizer]"

definition exec_stmt :: "'v library \<Rightarrow> stmt \<Rightarrow> py_exn + unit" where
  "exec_stmt L s = (if s = Config \<or> s = DefGenerateData then Inr () else construct L s)"

fun exec_cells ::
  "'v library \<Rightarrow> stmt list \<Rightarrow> 'v event list \<Rightarrow> (py_exn \<times> 'v event list) + 'v event list" where
  "exec_cells L [] tr = Inr tr"
| "exec_cells L (s # rest) tr =
     (let r = exec_stmt L s;
          tr = tr @ [Exec s r]
      in case r of Inl e \<Rightarrow> Inl (e, tr) | Inr _ \<Rightarrow> exec_cells L rest tr)"

section \<open>The training loop\<close>

text \<open>
  \<^verbatim>\<open>a[:, start:stop]\<close>: every row, the columns from \<open>start\<close> up to \<open>stop\<close>, clipped to the
  row as Python slices are.
\<close>

definition column_slice :: "'a list list \<Rightarrow> nat \<Rightarrow> nat \<Rightarrow> 'a list list" where
  "column_slice a start stop = map (\<lambda>row. take (stop - start) (drop start row)) a"

definition np_zeros :: "nat \<Rightarrow> nat \<Rightarrow> real list list" where
  "np_zeros rows cols = replicate rows (replicate cols 0)"

definition sess_run ::
  "'v library \<Rightarrow> 'v \<Rightarrow> feed_dict \<Rightarrow> py_exn + (real \<times> 'v \<times> lstm_state)" where
  "sess_run L v fd = (if feed_check fd then run_fetches L v fd else Inl ValueError)"

text \<open>
  The body of the inner loop:
  \<^verbatim>\<open>
  start_idx = batch*truncated_backprop_steps
  end_idx = start_idx+truncated_backprop_steps
  batch_x = X_data[:, start_idx:end_idx]
  batch_y = y_data[:, start_idx:end_idx]
  _total_loss, _optimizer, _final_state = sess.run(
      [loss, optimizer, final_state],
      feed_dict={X_placeholder: batch_x, y_placeholder:batch_y,
                 cell_state: _current_cell_state, hidden_state: _current_hidden_state})
  _current_cell_state, _current_hidden_state = _final_state
  training_losses.append(_total_loss)
  if batch%100 == 0:
      print("Step: ", batch, "Loss: ", _total_loss)
  \<close>
  The pair \<open>cur\<close> is \<^verbatim>\<open>(_current_cell_state, _current_hidden_state)\<close>. A raise returns the
  exception with the globals as they were at that moment.
\<close>

definition train_batch ::
  "'v library \<Rightarrow> nat \<Rightarrow> int list list \<Rightarrow> int list list \<Rightarrow> 'v globals \<times> lstm_state \<Rightarrow> nat \<Rightarrow>
   (py_exn \<times> 'v globals) + ('v globals \<times> lstm_state)" where
  "train_batch L epoch X_data y_data gc batch =
     (let g = fst gc;
          cur = snd gc;
          start_idx = batch * truncated_backprop_steps;
          end_idx = start_idx + truncated_backprop_steps;
          batch_x = column_slice X_data start_idx end_idx;
          batch_y = column_slice y_data start_idx end_idx;
          fd = \<lparr>fd_X = batch_x, fd_y = batch_y,
                fd_cell_state = fst cur, fd_hidden_state = snd cur\<rparr>;
          r = sess_run L (sess g) fd;
          g = g\<lparr>trace := trace g @ [SessRun epoch batch fd r]\<rparr>
      in case r of
           Inl e \<Rightarrow> Inl (e, g)
         | Inr (total_loss, v, final_state) \<Rightarrow>
             (let g = g\<lparr>sess := v, training_losses := training_losses g @ [total_loss]\<rparr>;
                  g = (if batch mod 100 = 0
                       then g\<lparr>trace := trace g @ [PrintStep batch total_loss]\<rparr> else g)
              in Inr (g, final_state)))"

text \<open>\<^verbatim>\<open>for batch in range(n_batches):\<close> over the list of its indices.\<close>

fun train_batches ::
  "'v library \<Rightarrow> nat \<Rightarrow> int list list \<Rightarrow> int list list \<Rightarrow> 'v globals \<times> lstm_state \<Rightarrow>
   nat list \<Rightarrow> (py_exn \<times> 'v globals) + ('v globals \<times> lstm_state)" where
  "train_batches L epoch X_data y_data gc [] = Inr gc"
| "train_batches L epoch X_data y_data gc (batch # rest) =
     (case train_batch L epoch X_data y_data gc batch of
        Inl err \<Rightarrow> Inl err
      | Inr gc' \<Rightarrow> train_batches L epoch X_data y_data gc' rest)"

text \<open>
  The body of the outer loop:
  \<^verbatim>\<open>
  print("")
  print("Epoch: ", epoch)
  X_data, y_data = generateData()
  _current_cell_state = np.zeros((batch_size, n_hidden))
  _current_hidden_state = np.zeros((batch_size, n_hidden))
  for batch in range(n_batches): ...
  \<close>
\<close>

definition train_epoch ::
  "'v library \<Rightarrow> 'v globals \<Rightarrow> nat \<Rightarrow> (py_exn \<times> 'v globals) + 'v globals" where
  "train_epoch L g epoch =
     (let g = g\<lparr>trace := trace g @ [PrintBlank, PrintEpoch epoch]\<rparr>;
          r = generateData (random_choice L epoch);
          g = g\<lparr>trace := trace g @ [CallGenerateData epoch r]\<rparr>
      in case r of
           Inl e \<Rightarrow> Inl (e, g)
         | Inr (X_data, y_data) \<Rightarrow>
             (let current_cell_state = np_zeros batch_size n_hidden;
                  current_hidden_state = np_zeros batch_size n_hidden
              in case train_batches L epoch X_data y_data
                        (g, (current_cell_state, current_hidden_state)) [0..<n_batches] of
                   Inl err \<Rightarrow> Inl err
                 | Inr gc \<Rightarrow> Inr (fst gc)))"

text \<open>\<^verbatim>\<open>for epoch in range(n_epochs):\<close> over the list of its indices.\<close>

fun train_epochs ::
  "'v library \<Rightarrow> 'v globals \<Rightarrow> nat list \<Rightarrow> (py_exn \<times> 'v globals) + 'v globals" where
  "train_epochs L g [] = Inr g"
| "train_epochs L g (epoch # rest) =
     (case train_epoch L g epoch of
        Inl err \<Rightarrow> Inl err
      | Inr g' \<Rightarrow> train_epochs L g' rest)"

section \<open>The whole notebook\<close>

text \<open>
  The cells in order: the graph-building cells, then
  \<^verbatim>\<open>
  with tf.Session() as sess:
      init = tf.global_variables_initializer()
      sess.run(init)
      training_losses = []
      for epoch in range(n_epochs): ...
  \<close>
  and the last cell, \<^verbatim>\<open>plt.plot(training_losses)\<close> with its figure and axis labels. There
  is no \<^verbatim>\<open>try\<close> in the notebook: the first exception ends the run. The result is the
  exception (if any), the operations performed and \<^verbatim>\<open>training_losses\<close> (empty while the
  name is not bound yet).
\<close>

record 'v run =
  raised :: "py_exn option"
  events :: "'v event list"
  final_losses :: "real list"

definition notebook :: "'v library \<Rightarrow> 'v run" where
  "notebook L =
     (case exec_cells L graph_cells [] of
        Inl (e, tr) \<Rightarrow> \<lparr>raised = Some e, events = tr, final_losses = []\<rparr>
      | Inr tr \<Rightarrow>
          (let r = session_init L;
               tr = tr @ [SessionInit r]
           in case r of
                Inl e \<Rightarrow> \<lparr>raised = Some e, events = tr, final_losses = []\<rparr>
              | Inr v \<Rightarrow>
                  (case train_epochs L \<lparr>sess = v, training_losses = [], trace = tr\<rparr>
                          [0..<n_epochs] of
                     Inl (e, g) \<Rightarrow>
                       \<lparr>raised = Some e, events = trace g, final_losses = training_losses g\<rparr>
                   | Inr g \<Rightarrow>
                       (let p = plt_plot L (training_losses g);
                            tr = trace g @ [Plot (training_losses g) p]
                        in \<lparr>raised = (case p of Inl e \<Rightarrow> Some e | Inr _ \<Rightarrow> None),
                            events = tr, final_losses = training_losses g\<rparr>))))"

section \<open>Observing a run\<close>

text \<open>
  The calls of \<^verbatim>\<open>sess.run\<close> in a sequence of operations, in order: the epoch, the batch
  index, the feed and the result of each. Likewise the \<^verbatim>\<open>Step: ... Loss: ...\<close> lines
  printed, and the exception an operation raised, if any.
\<close>

type_synonym 'v sess_call = "nat \<times> nat \<times> feed_dict \<times> (py_exn + real \<times> 'v \<times> lstm_state)"

fun sess_call_of :: "'v event \<Rightarrow> 'v sess_call option" where
  "sess_call_of (SessRun e b fd r) = Some (e, b, fd, r)"
| "sess_call_of _ = None"

definition sess_runs :: "'v event list \<Rightarrow> 'v sess_call list" where
  "sess_runs tr = List.map_filter sess_call_of tr"

fun step_line_of :: "'v event \<Rightarrow> (nat \<times> real) option" where
  "step_line_of (PrintStep b v) = Some (b, v)"
| "step_line_of _ = None"

definition printed_steps :: "'v event list \<Rightarrow> (nat \<times> real) list" where
  "printed_steps tr = List.map_filter step_line_of tr"

fun exn_of :: "py_exn + 'a \<Rightarrow> py_exn option" where
  "exn_of (Inl e) = Some e"
| "exn_of (Inr _) = None"

fun raised_by :: "'v event \<Rightarrow> py_exn option" where
  "raised_by (Exec s r) = exn_of r"
| "raised_by (SessionInit r) = exn_of r"
| "raised_by (CallGenerateData e r) = exn_of r"
| "raised_by (SessRun e b fd r) = exn_of r"
| "raised_by (Plot ls r) = exn_of r"
| "raised_by PrintBlank = None"
| "raised_by (PrintEpoch e) = None"
| "raised_by (PrintStep b v) = None"

text \<open>
  \<open>quiet\<close>: no operation of the sequence raised. \<open>stopped_by x\<close>: the last operation
  raised \<open>x\<close> and none before it raised.
\<close>

definition quiet :: "'v event list \<Rightarrow> bool" where
  "quiet tr \<longleftrightarrow> list_all (\<lambda>ev. raised_by ev = None) tr"

definition stopped_by :: "py_exn \<Rightarrow> 'v event list \<Rightarrow> bool" where
  "stopped_by x tr \<longleftrightarrow> tr \<noteq> [] \<and> raised_by (last tr) = Some x \<and> quiet (butlast tr)"

text \<open>
  The operations of the inner loop (a session run, a printed step line), the pair of
  loop indices of a session run, and the three operations that open epoch \<open>e\<close>.
\<close>

fun batch_event :: "'v event \<Rightarrow> bool" where
  "batch_event (SessRun e b fd r) = True"
| "batch_event (PrintStep b v) = True"
| "batch_event _ = False"

definition call_index :: "'v sess_call \<Rightarrow> nat \<times> nat" where
  "call_index c = (fst c, fst (snd c))"

definition epoch_opening :: "'v library \<Rightarrow> nat \<Rightarrow> 'v event list" where
  "epoch_opening L e =
     [PrintBlank, PrintEpoch e, CallGenerateData e (generateData (random_choice L e))]"

text \<open>
  Relations between the session runs of a trace, used as loop invariants.
  \<open>returned lv c\<close>: the run \<open>c\<close> succeeded with loss \<open>lv\<close>. \<open>state_linked rs k\<close>: the
  \<open>k\<close>-th run was fed zero matrices if it is batch 0, and otherwise the final state the
  run before it returned, which is the previous batch of the same epoch.
  \<open>pending e b cur rs\<close>: the loop is about to run batch \<open>b\<close> of epoch \<open>e\<close> with the
  current state \<open>cur\<close>, which is zero at batch 0 and otherwise what the last run returned.
  \<open>step_lines ls rs\<close>: the step lines that the runs \<open>rs\<close> with losses \<open>ls\<close> print, one
  for each batch index divisible by 100.
  \<open>fed_from L c\<close>: the feed of \<open>c\<close> passed the check and its batches are the column
  slices of the data generated for the epoch of \<open>c\<close>.
\<close>

definition returned :: "real \<Rightarrow> 'v sess_call \<Rightarrow> bool" where
  "returned lv c \<longleftrightarrow> (\<exists>v st. snd (snd (snd c)) = Inr (lv, v, st))"

definition state_linked :: "'v sess_call list \<Rightarrow> nat \<Rightarrow> bool" where
  "state_linked rs k \<longleftrightarrow>
     (case rs ! k of
        (e, b, fd, r) \<Rightarrow>
          if b = 0
          then fd_cell_state fd = np_zeros batch_size n_hidden \<and>
               fd_hidden_state fd = np_zeros batch_size n_hidden
          else 0 < k \<and>
               (\<exists>fd' lv v. rs ! (k - 1) =
                  (e, b - 1, fd', Inr (lv, v, (fd_cell_state fd, fd_hidden_state fd)))))"

definition pending :: "nat \<Rightarrow> nat \<Rightarrow> lstm_state \<Rightarrow> 'v sess_call list \<Rightarrow> bool" where
  "pending e b cur rs \<longleftrightarrow>
     (if b = 0 then cur = (np_zeros batch_size n_hidden, np_zeros batch_size n_hidden)
      else rs \<noteq> [] \<and> (\<exists>fd lv v. last rs = (e, b - 1, fd, Inr (lv, v, cur))))"

definition step_lines :: "real list \<Rightarrow> 'v sess_call list \<Rightarrow> (nat \<times> real) list" where
  "step_lines ls rs =
     map (\<lambda>p. (fst (snd (snd p)), fst p)) (filter (\<lambda>p. fst (snd (snd p)) mod 100 = 0) (zip ls rs))"

definition fed_from :: "'v library \<Rightarrow> 'v sess_call \<Rightarrow> bool" where
  "fed_from L c \<longleftrightarrow>
     (case c of
        (e, b, fd, r) \<Rightarrow>
          feed_check fd \<and>
          (\<exists>X y. generateData (random_choice L e) = Inr (X, y) \<and>
             fd_X fd = column_slice X (b * truncated_backprop_steps)
                         (b * truncated_backprop_steps + truncated_backprop_steps) \<and>
             fd_y fd = column_slice y (b * truncated_backprop_steps)
                         (b * truncated_backprop_steps + truncated_backprop_steps)))"

text \<open>
  A library that behaves: no call raises, \<^verbatim>\<open>np.random.choice\<close> keeps its contract, and
  a \<^verbatim>\<open>sess.run\<close> whose feed passed the check returns a final LSTM state of the shape the
  state placeholders have (the shape of \<^verbatim>\<open>final_state\<close> in the graph).
\<close>

definition library_ok :: "'v library \<Rightarrow> bool" where
  "library_ok L \<longleftrightarrow>
     (\<forall>s. construct L s = Inr ()) \<and>
     (\<exists>v. session_init L = Inr v) \<and>
     (\<forall>epoch. random_choice_post n_classes total_series_length (random_choice L epoch)) \<and>
     (\<forall>v fd. feed_check fd \<longrightarrow>
        (\<exists>lv v' c h. run_fetches L v fd = Inr (lv, v', (c, h)) \<and>
           feed_compatible cell_state c \<and> feed_compatible hidden_state h)) \<and>
     (\<forall>ls. plt_plot L ls = Inr ())"

text \<open>
  A concrete library to run the notebook on: every sample is all ones, the session counts
  its runs in its variables, reports the loss 0 and hands the fed LSTM state back.
\<close>

definition demo_library :: "nat library" where
  "demo_library =
     \<lparr>construct = (\<lambda>s. Inr ()),
      session_init = Inr 0,
      random_choice = (\<lambda>epoch. replicate total_series_length 1),
      run_fetches = (\<lambda>v fd. Inr (0, Suc v, (fd_cell_state fd, fd_hidden_state fd))),
      plt_plot = (\<lambda>ls. Inr ())\<rparr>"

text \<open>
  A library whose session cannot be created.
\<close>

definition failing_library :: "nat library" where
  "failing_library = demo_library\<lparr>session_init := Inl (LibraryError ''no session'')\<rparr>"

section \<open>Properties of the numpy operations\<close>


lemma length_np_roll: "length (np_roll a k) = length a"
  by (auto simp: np_roll_def Let_def)

lemma nth_np_roll:
  assumes "k < length a" "i < length a"
  shows "np_roll a k ! i = (if i < k then a ! (length a - k + i) else a ! (i - k))"
  using assms by (auto simp: np_roll_def Let_def nth_append)

lemma set_np_roll: "set (np_roll a k) = set a"
proof (cases "length a = 0")
  case True then show ?thesis by (simp add: np_roll_def)
next
  case False
  have "set (drop m a @ take m a) = set a" for m
    by (metis append_take_drop_id set_append sup_commute)
  with False show ?thesis by (simp add: np_roll_def Let_def del: set_append)
qed

lemma length_assign_prefix: "length (assign_prefix a k v) = length a"
  by (auto simp: assign_prefix_def)

lemma nth_assign_prefix:
  "i < length a \<Longrightarrow> assign_prefix a k v ! i = (if i < k then v else a ! i)"
  by (auto simp: assign_prefix_def nth_append)

lemma set_assign_prefix: "set (assign_prefix a k v) \<subseteq> insert v (set a)"
  by (auto simp: assign_prefix_def dest: in_set_dropD)

lemma concat_chunks: "concat (map (\<lambda>i. take c (drop (i * c) a)) [0..<r]) = take (r * c) a"
proof (induction r)
  case 0 show ?case by simp
next
  case (Suc r)
  have "take (r * c) a @ take c (drop (r * c) a) = take (r * c + c) a"
    by (simp add: take_add)
  with Suc show ?case by (simp add: add.commute)
qed

lemma reshape_rows_ok:
  assumes "0 < r" "length a mod r = 0"
  shows "\<exists>m. reshape_rows r a = Inr m \<and> length m = r
            \<and> list_all (\<lambda>row. length row = length a div r) m \<and> concat m = a"
proof -
  let ?c = "length a div r"
  let ?m = "map (\<lambda>i. take ?c (drop (i * ?c) a)) [0..<r]"
  have rc: "r * ?c = length a" using assms by (metis mod_0_imp_dvd dvd_mult_div_cancel)
  have 1: "reshape_rows r a = Inr ?m" using assms by (simp add: reshape_rows_def Let_def)
  have 2: "concat ?m = a" by (simp add: concat_chunks rc)
  have 3: "list_all (\<lambda>row. length row = ?c) ?m"
  proof -
    have "i < r \<Longrightarrow> ?c \<le> length a - i * ?c" for i
    proof -
      assume "i < r"
      then have "Suc i * ?c \<le> r * ?c" by (intro mult_le_mono1) simp
      then show ?thesis using rc by simp
    qed
    then show ?thesis by (auto simp: list_all_iff)
  qed
  show ?thesis using 1 2 3 by simp
qed


lemma generateData_Inr:
  assumes "length choice = total_series_length"
  shows "\<exists>x y. generateData choice = Inr (x, y)
           \<and> concat x = choice
           \<and> concat y = assign_prefix (np_roll choice echo_step) echo_step 0
           \<and> length x = batch_size \<and> list_all (\<lambda>row. length row = 10000) x
           \<and> length y = batch_size \<and> list_all (\<lambda>row. length row = 10000) y"
proof -
  let ?y = "assign_prefix (np_roll choice echo_step) echo_step 0"
  have ly: "length ?y = 50000"
    using assms by (simp add: length_assign_prefix length_np_roll total_series_length_def)
  have lx: "length choice = 50000"
    using assms by (simp add: total_series_length_def)
  obtain x where x: "reshape_rows batch_size choice = Inr x" "length x = batch_size"
      "list_all (\<lambda>row. length row = length choice div batch_size) x" "concat x = choice"
    using reshape_rows_ok [of batch_size choice] lx by (auto simp: batch_size_def)
  obtain y where y: "reshape_rows batch_size ?y = Inr y" "length y = batch_size"
      "list_all (\<lambda>row. length row = length ?y div batch_size) y" "concat y = ?y"
    using reshape_rows_ok [of batch_size ?y] ly by (auto simp: batch_size_def)
  have "generateData choice = Inr (x, y)"
    using x(1) y(1) by (simp add: generateData_def Let_def)
  moreover have "list_all (\<lambda>row. length row = 10000) x"
    using x(3) lx by (simp add: batch_size_def)
  moreover have "list_all (\<lambda>row. length row = 10000) y"
    using y(3) ly by (simp add: batch_size_def)
  ultimately show ?thesis using x(2,4) y(2,4) by blast
qed

lemma echo_nth:
  assumes "length a = 50000" "i < 50000"
  shows "assign_prefix (np_roll a echo_step) echo_step 0 ! i = (if i < 3 then 0 else a ! (i - 3))"
  using assms
  by (simp add: nth_assign_prefix length_np_roll nth_np_roll echo_step_def)

text \<open>
  Claim C1. For every sample of length \<open>total_series_length\<close> drawn by the library,
  \<open>generateData\<close> returns a pair \<open>(x, y)\<close> of arrays of shape (5, 10000), and, both read
  row-major as arrays of length 50000, \<open>y[i] = x[i - echo_step]\<close> for every index
  \<open>i \<ge> echo_step = 3\<close> and \<open>y[i] = 0\<close> for every index below.
\<close>

theorem generateData_echo:
  assumes "length choice = total_series_length"
  shows "\<exists>x y. generateData choice = Inr (x, y)
           \<and> length x = 5 \<and> list_all (\<lambda>row. length row = 10000) x
           \<and> length y = 5 \<and> list_all (\<lambda>row. length row = 10000) y
           \<and> length (concat x) = 50000 \<and> length (concat y) = 50000
           \<and> (\<forall>i<50000. concat y ! i = (if i < echo_step then 0 else concat x ! (i - echo_step)))
           \<and> echo_step = 3"
proof -
  have lx: "length choice = 50000"
    using assms by (simp add: total_series_length_def)
  obtain x y where g: "generateData choice = Inr (x, y)" "concat x = choice"
      "concat y = assign_prefix (np_roll choice echo_step) echo_step 0"
      "length x = batch_size" "list_all (\<lambda>row. length row = 10000) x"
      "length y = batch_size" "list_all (\<lambda>row. length row = 10000) y"
    using generateData_Inr [OF assms] by blast
  have "length (concat y) = 50000"
    using g(3) lx by (simp add: length_assign_prefix length_np_roll)
  moreover have "\<forall>i<50000. concat y ! i = (if i < echo_step then 0 else concat x ! (i - echo_step))"
    using g(2,3) echo_nth [OF lx] by (simp add: echo_step_def)
  ultimately show ?thesis
    using g lx by (simp add: batch_size_def echo_step_def)
qed

theorem generateData_echo_witness:
  "length (replicate total_series_length (1::int)) = total_series_length \<and>
   (\<exists>x y. generateData (replicate total_series_length 1) = Inr (x, y)
           \<and> length x = 5 \<and> list_all (\<lambda>row. length row = 10000) x
           \<and> length y = 5 \<and> list_all (\<lambda>row. length row = 10000) y
           \<and> length (concat x) = 50000 \<and> length (concat y) = 50000
           \<and> concat y ! 2 = 0 \<and> concat y ! 3 = concat x ! 0
           \<and> concat y ! 49999 = concat x ! 49996)"
proof -
  obtain x y where g: "generateData (replicate total_series_length 1) = Inr (x, y)"
      "length x = 5" "list_all (\<lambda>row. length row = 10000) x"
      "length y = 5" "list_all (\<lambda>row. length row = 10000) y"
      "length (concat x) = 50000" "length (concat y) = 50000"
      "\<forall>i<50000. concat y ! i = (if i < echo_step then 0 else concat x ! (i - echo_step))"
      "echo_step = 3"
    using generateData_echo [of "replicate total_series_length 1"] by auto
  have "concat y ! 2 = 0" "concat y ! 3 = concat x ! 0" "concat y ! 49999 = concat x ! 49996"
    using g(8) [rule_format, of 2] g(8) [rule_format, of 3] g(8) [rule_format, of 49999]
    by (simp_all add: g(9))
  then show ?thesis using g(1-7) by simp
qed

lemma generateData_range:
  assumes "random_choice_post n_classes total_series_length choice"
    and "generateData choice = Inr (x, y)"
  shows "list_all (list_all (\<lambda>v. 0 \<le> v \<and> v < int n_classes)) x
       \<and> list_all (list_all (\<lambda>v. 0 \<le> v \<and> v < int n_classes)) y"
proof -
  have len: "length choice = total_series_length"
    and rng: "\<forall>v\<in>set choice. 0 \<le> v \<and> v < int n_classes"
    using assms(1) by (auto simp: random_choice_post_def list_all_iff)
  obtain x' y' where g: "generateData choice = Inr (x', y')" "concat x' = choice"
      "concat y' = assign_prefix (np_roll choice echo_step) echo_step 0"
    using generateData_Inr [OF len] by blast
  have xy: "x' = x" "y' = y" using g(1) assms(2) by auto
  have "set (concat y) \<subseteq> insert 0 (set choice)"
    using g(3) xy set_assign_prefix [of "np_roll choice echo_step" echo_step 0]
    by (simp add: set_np_roll)
  then have "\<forall>v\<in>set (concat y). 0 \<le> v \<and> v < int n_classes"
    using rng by (auto simp: n_classes_def)
  moreover have "\<forall>v\<in>set (concat x). 0 \<le> v \<and> v < int n_classes"
    using rng g(2) xy by simp
  ultimately show ?thesis by (auto simp: list_all_iff)
qed


section \<open>Projections of the trace\<close>

lemma sess_runs_append [simp]: "sess_runs (a @ b) = sess_runs a @ sess_runs b"
  by (simp add: sess_runs_def map_filter_def)

lemma sess_runs_simps [simp]:
  "sess_runs [] = []"
  "sess_runs (SessRun e b fd r # tr) = (e, b, fd, r) # sess_runs tr"
  "sess_runs (PrintStep b v # tr) = sess_runs tr"
  "sess_runs (PrintBlank # tr) = sess_runs tr"
  "sess_runs (PrintEpoch e # tr) = sess_runs tr"
  "sess_runs (CallGenerateData e g # tr) = sess_runs tr"
  "sess_runs (Exec s u # tr) = sess_runs tr"
  "sess_runs (SessionInit i # tr) = sess_runs tr"
  "sess_runs (Plot ls p # tr) = sess_runs tr"
  by (simp_all add: sess_runs_def map_filter_def)

lemma printed_steps_append [simp]: "printed_steps (a @ b) = printed_steps a @ printed_steps b"
  by (simp add: printed_steps_def map_filter_def)

lemma printed_steps_simps [simp]:
  "printed_steps [] = []"
  "printed_steps (SessRun e b fd r # tr) = printed_steps tr"
  "printed_steps (PrintStep b v # tr) = (b, v) # printed_steps tr"
  "printed_steps (PrintBlank # tr) = printed_steps tr"
  "printed_steps (PrintEpoch e # tr) = printed_steps tr"
  "printed_steps (CallGenerateData e g # tr) = printed_steps tr"
  "printed_steps (Exec s u # tr) = printed_steps tr"
  "printed_steps (SessionInit i # tr) = printed_steps tr"
  "printed_steps (Plot ls p # tr) = printed_steps tr"
  by (simp_all add: printed_steps_def map_filter_def)

lemma train_batch_Inr:
  assumes "train_batch L e X y gc b = Inr gc'"
  shows "\<exists>lv v fd. fd = \<lparr>fd_X = column_slice X (b * 15) (b * 15 + 15),
                         fd_y = column_slice y (b * 15) (b * 15 + 15),
                         fd_cell_state = fst (snd gc), fd_hidden_state = snd (snd gc)\<rparr>
           \<and> feed_check fd
           \<and> run_fetches L (sess (fst gc)) fd = Inr (lv, v, snd gc')
           \<and> fst gc' = (fst gc)\<lparr>sess := v,
                 training_losses := training_losses (fst gc) @ [lv],
                 trace := trace (fst gc) @ SessRun e b fd (Inr (lv, v, snd gc'))
                            # (if b mod 100 = 0 then [PrintStep b lv] else [])\<rparr>"
  using assms
  by (auto simp: train_batch_def Let_def sess_run_def truncated_backprop_steps_def
           split: sum.splits prod.splits if_splits)

section \<open>Exceptions end the run\<close>

lemma quiet_append [simp]: "quiet (a @ b) \<longleftrightarrow> quiet a \<and> quiet b"
  by (simp add: quiet_def)

lemma quiet_Nil [simp]: "quiet []"
  by (simp add: quiet_def)

lemma quiet_Cons [simp]: "quiet (ev # tr) \<longleftrightarrow> raised_by ev = None \<and> quiet tr"
  by (simp add: quiet_def)

lemma stopped_by_snoc [simp]: "stopped_by x (tr @ [ev]) \<longleftrightarrow> raised_by ev = Some x \<and> quiet tr"
  by (simp add: stopped_by_def)

lemma exec_cells_raise:
  "quiet tr \<Longrightarrow>
   (case exec_cells L ss tr of Inl xt \<Rightarrow> stopped_by (fst xt) (snd xt) | Inr tr' \<Rightarrow> quiet tr')"
proof (induction ss arbitrary: tr)
  case Nil
  then show ?case by simp
next
  case (Cons s ss)
  show ?case
  proof (cases "exec_stmt L s")
    case (Inl x)
    then show ?thesis using Cons.prems by (simp add: Let_def)
  next
    case (Inr u)
    have "quiet (tr @ [Exec s (Inr u)])" using Cons.prems by simp
    from Cons.IH [OF this] show ?thesis using Inr by (simp add: Let_def)
  qed
qed

lemma train_batch_raise:
  "quiet (trace (fst gc)) \<Longrightarrow>
   (case train_batch L e X y gc b of
      Inl xg \<Rightarrow> stopped_by (fst xg) (trace (snd xg))
    | Inr gc' \<Rightarrow> quiet (trace (fst gc')))"
  by (auto simp: train_batch_def Let_def split: sum.splits prod.splits)

lemma train_batches_raise:
  "quiet (trace (fst gc)) \<Longrightarrow>
   (case train_batches L e X y gc bs of
      Inl xg \<Rightarrow> stopped_by (fst xg) (trace (snd xg))
    | Inr gc' \<Rightarrow> quiet (trace (fst gc')))"
proof (induction bs arbitrary: gc)
  case Nil
  then show ?case by simp
next
  case (Cons b bs)
  show ?case
  proof (cases "train_batch L e X y gc b")
    case (Inl xg)
    then show ?thesis using train_batch_raise [OF Cons.prems, of L e X y b] by simp
  next
    case (Inr gc1)
    then have "quiet (trace (fst gc1))"
      using train_batch_raise [OF Cons.prems, of L e X y b] by simp
    from Cons.IH [OF this] show ?thesis using Inr by simp
  qed
qed

lemma train_epoch_raise:
  assumes "quiet (trace g)"
  shows "case train_epoch L g e of
           Inl xg \<Rightarrow> stopped_by (fst xg) (trace (snd xg))
         | Inr g' \<Rightarrow> quiet (trace g')"
proof (cases "generateData (random_choice L e)")
  case (Inl x)
  have "stopped_by x ((trace g @ [PrintBlank, PrintEpoch e]) @ [CallGenerateData e (Inl x)])"
    using assms by (simp only: stopped_by_snoc) simp
  then show ?thesis using Inl by (simp add: train_epoch_def Let_def)
next
  case (Inr xy)
  obtain X y where xy: "xy = (X, y)" by (cases xy)
  let ?g = "g\<lparr>trace := trace g @ [PrintBlank, PrintEpoch e, CallGenerateData e (Inr (X, y))]\<rparr>"
  let ?gc = "(?g, (np_zeros batch_size n_hidden, np_zeros batch_size n_hidden))"
  have q: "quiet (trace (fst ?gc))" using assms by simp
  have eq: "train_epoch L g e =
      (case train_batches L e X y ?gc [0..<n_batches] of Inl err \<Rightarrow> Inl err | Inr gc \<Rightarrow> Inr (fst gc))"
    using Inr xy by (simp add: train_epoch_def Let_def)
  show ?thesis
    using train_batches_raise [OF q, of L e X y "[0..<n_batches]"]
    unfolding eq by (auto split: sum.splits)
qed

lemma train_epochs_raise:
  "quiet (trace g) \<Longrightarrow>
   (case train_epochs L g es of
      Inl xg \<Rightarrow> stopped_by (fst xg) (trace (snd xg))
    | Inr g' \<Rightarrow> quiet (trace g'))"
proof (induction es arbitrary: g)
  case Nil
  then show ?case by simp
next
  case (Cons e es)
  show ?case
  proof (cases "train_epoch L g e")
    case (Inl xg)
    then show ?thesis using train_epoch_raise [OF Cons.prems, of L e] by simp
  next
    case (Inr g1)
    then have "quiet (trace g1)"
      using train_epoch_raise [OF Cons.prems, of L e] by simp
    from Cons.IH [OF this] show ?thesis using Inr by simp
  qed
qed

lemma notebook_raise:
  "case raised (notebook L) of
     None \<Rightarrow> quiet (events (notebook L))
   | Some x \<Rightarrow> stopped_by x (events (notebook L))"
proof (cases "exec_cells L graph_cells []")
  case (Inl xt)
  then show ?thesis
    using exec_cells_raise [of "[]" L graph_cells]
    by (cases xt) (simp add: notebook_def)
next
  case (Inr tr)
  then have qtr: "quiet tr"
    using exec_cells_raise [of "[]" L graph_cells] by simp
  show ?thesis
  proof (cases "session_init L")
    case (Inl x)
    then show ?thesis using Inr qtr by (simp add: notebook_def Let_def)
  next
    case v: (Inr v)
    let ?g = "\<lparr>sess = v, training_losses = [], trace = tr @ [SessionInit (Inr v)]\<rparr>"
    have q: "quiet (trace ?g)" using qtr by simp
    show ?thesis
    proof (cases "train_epochs L ?g [0..<n_epochs]")
      case (Inl xg)
      then show ?thesis
        using train_epochs_raise [OF q, of L "[0..<n_epochs]"] Inr v
        by (cases xg) (simp add: notebook_def Let_def)
    next
      case g: (Inr g)
      then have "quiet (trace g)"
        using train_epochs_raise [OF q, of L "[0..<n_epochs]"] by simp
      then show ?thesis
        using Inr v g
        by (cases "plt_plot L (training_losses g)") (simp_all add: notebook_def Let_def)
    qed
  qed
qed

lemma stopped_by_unique:
  assumes "stopped_by x tr" "ev \<in> set tr" "raised_by ev = Some x'"
  shows "x' = x \<and> ev = last tr"
proof -
  from assms(1) have ne: "tr \<noteq> []" and l: "raised_by (last tr) = Some x"
    and q: "quiet (butlast tr)" by (simp_all add: stopped_by_def)
  from ne have "tr = butlast tr @ [last tr]" by simp
  then have "ev \<in> set (butlast tr) \<or> ev = last tr"
    using assms(2) by (metis Un_iff empty_iff insert_iff list.set(1) list.set(2) set_append)
  moreover have "ev \<notin> set (butlast tr)"
    using q assms(3) by (auto simp: quiet_def list_all_iff)
  ultimately show ?thesis using l assms(3) by simp
qed

text \<open>
  Claim C7. The notebook handles no error itself: whichever operation raises (a
  graph-building statement, the data generation, a session run or the plot), the
  exception is the outcome of the whole run, unchanged, and the raising operation is the
  last one performed; and a run ends with an exception only in this way.
\<close>

theorem exceptions_propagate:
  "(\<forall>ev\<in>set (events (notebook L)). \<forall>x. raised_by ev = Some x \<longrightarrow>
       raised (notebook L) = Some x \<and> ev = last (events (notebook L)))
   \<and> (\<forall>x. raised (notebook L) = Some x \<longrightarrow> stopped_by x (events (notebook L)))
   \<and> (raised (notebook L) = None \<longrightarrow> quiet (events (notebook L)))"
proof -
  let ?R = "notebook L"
  have c: "case raised ?R of None \<Rightarrow> quiet (events ?R) | Some x \<Rightarrow> stopped_by x (events ?R)"
    by (rule notebook_raise)
  have 1: "raised ?R = Some x \<and> ev = last (events ?R)"
    if "ev \<in> set (events ?R)" "raised_by ev = Some x" for ev x
  proof (cases "raised ?R")
    case None
    then have "quiet (events ?R)" using c by simp
    then show ?thesis using that by (auto simp: quiet_def list_all_iff)
  next
    case (Some x')
    then have "stopped_by x' (events ?R)" using c by simp
    from stopped_by_unique [OF this that] Some show ?thesis by simp
  qed
  have 2: "stopped_by x (events ?R)" if "raised ?R = Some x" for x
    using c that by simp
  have 3: "quiet (events ?R)" if "raised ?R = None"
    using c that by simp
  show ?thesis using 1 2 3 by blast
qed

lemma failing_run:
  "notebook failing_library =
     \<lparr>raised = Some (LibraryError ''no session''),
      events = map (\<lambda>s. Exec s (Inr ())) graph_cells @ [SessionInit (Inl (LibraryError ''no session''))],
      final_losses = []\<rparr>"
  by (simp add: notebook_def failing_library_def demo_library_def graph_cells_def
        exec_stmt_def Let_def)

theorem exceptions_propagate_witness:
  "SessionInit (Inl (LibraryError ''no session'')) \<in> set (events (notebook failing_library))
   \<and> raised_by (SessionInit (Inl (LibraryError ''no session'')) :: nat event)
       = Some (LibraryError ''no session'')
   \<and> raised (notebook failing_library) = Some (LibraryError ''no session'')
   \<and> stopped_by (LibraryError ''no session'') (events (notebook failing_library))"
  using exceptions_propagate [of failing_library]
  by (simp add: failing_run)

section \<open>Shapes\<close>

lemma n_batches_eq: "n_batches = 666"
  by (simp add: n_batches_def total_series_length_def batch_size_def truncated_backprop_steps_def)

lemma np_shape_rect:
  assumes "m \<noteq> []" "list_all (\<lambda>row. length row = n) m"
  shows "np_shape m = Some [length m, n]"
  using assms by (cases m) (auto simp: np_shape_def list_all_iff)

lemma feed_compatible_iff:
  "feed_compatible \<lparr>dtype = d, static_shape = [Some r, Some n]\<rparr> m \<longleftrightarrow> np_shape m = Some [r, n]"
proof (cases "np_shape m")
  case None
  then show ?thesis by (simp add: feed_compatible_def)
next
  case (Some s)
  have "list_all2 (\<lambda>d n. case d of None \<Rightarrow> True | Some m \<Rightarrow> m = n) [Some r, Some n] s \<longleftrightarrow> s = [r, n]"
    by (auto simp: list_all2_Cons1)
  then show ?thesis using Some by (simp add: feed_compatible_def is_compatible_with_def)
qed

lemma np_shape_column_slice:
  assumes "m \<noteq> []" "list_all (\<lambda>row. length row = n) m" "stop \<le> n"
  shows "np_shape (column_slice m start stop) = Some [length m, stop - start]"
proof -
  have "list_all (\<lambda>row. length row = stop - start) (column_slice m start stop)"
    using assms by (auto simp: column_slice_def list_all_iff)
  moreover have "column_slice m start stop \<noteq> []" "length (column_slice m start stop) = length m"
    using assms(1) by (simp_all add: column_slice_def)
  ultimately show ?thesis using np_shape_rect by metis
qed

lemma np_shape_zeros: "0 < r \<Longrightarrow> np_shape (np_zeros r n) = Some [r, n]"
  using np_shape_rect [of "np_zeros r n" n] by (simp add: np_zeros_def list_all_iff)

lemma slice_bound: "b < n_batches \<Longrightarrow> b * 15 + 15 \<le> 10000"
  by (simp add: n_batches_eq)

lemma feed_check_batch:
  assumes X: "length X = batch_size" "list_all (\<lambda>row. length row = 10000) X"
    and y: "length y = batch_size" "list_all (\<lambda>row. length row = 10000) y"
    and cur: "feed_compatible cell_state (fst cur)" "feed_compatible hidden_state (snd cur)"
    and b: "b < n_batches"
  shows "feed_check \<lparr>fd_X = column_slice X (b * 15) (b * 15 + 15),
                     fd_y = column_slice y (b * 15) (b * 15 + 15),
                     fd_cell_state = fst cur, fd_hidden_state = snd cur\<rparr>"
proof -
  have ne: "X \<noteq> []" "y \<noteq> []" using X(1) y(1) by (auto simp: batch_size_def)
  have "np_shape (column_slice X (b * 15) (b * 15 + 15)) = Some [5, 15]"
    using np_shape_column_slice [OF ne(1) X(2) slice_bound [OF b], of "b * 15"] X(1)
    by (simp add: batch_size_def)
  moreover have "np_shape (column_slice y (b * 15) (b * 15 + 15)) = Some [5, 15]"
    using np_shape_column_slice [OF ne(2) y(2) slice_bound [OF b], of "b * 15"] y(1)
    by (simp add: batch_size_def)
  ultimately show ?thesis
    using cur
    by (simp add: feed_check_def X_placeholder_def y_placeholder_def feed_compatible_iff
          batch_size_def truncated_backprop_steps_def)
qed

section \<open>A behaving library lets the run finish\<close>

lemma train_batch_ok:
  assumes L: "library_ok L"
    and X: "length X = batch_size" "list_all (\<lambda>row. length row = 10000) X"
    and y: "length y = batch_size" "list_all (\<lambda>row. length row = 10000) y"
    and cur: "feed_compatible cell_state (fst (snd gc))" "feed_compatible hidden_state (snd (snd gc))"
    and b: "b < n_batches"
  shows "\<exists>gc'. train_batch L e X y gc b = Inr gc'
           \<and> feed_compatible cell_state (fst (snd gc'))
           \<and> feed_compatible hidden_state (snd (snd gc'))"
proof -
  let ?fd = "\<lparr>fd_X = column_slice X (b * 15) (b * 15 + 15),
              fd_y = column_slice y (b * 15) (b * 15 + 15),
              fd_cell_state = fst (snd gc), fd_hidden_state = snd (snd gc)\<rparr>"
  have fc: "feed_check ?fd" by (rule feed_check_batch [OF X y cur b])
  obtain lv v' c h where r: "run_fetches L (sess (fst gc)) ?fd = Inr (lv, v', (c, h))"
      "feed_compatible cell_state c" "feed_compatible hidden_state h"
    using L fc unfolding library_ok_def by blast
  show ?thesis
    using fc r
    by (simp add: train_batch_def Let_def sess_run_def truncated_backprop_steps_def)
qed

lemma train_batches_ok:
  assumes L: "library_ok L"
    and X: "length X = batch_size" "list_all (\<lambda>row. length row = 10000) X"
    and y: "length y = batch_size" "list_all (\<lambda>row. length row = 10000) y"
  shows "feed_compatible cell_state (fst (snd gc)) \<Longrightarrow>
         feed_compatible hidden_state (snd (snd gc)) \<Longrightarrow>
         \<forall>b\<in>set bs. b < n_batches \<Longrightarrow>
         \<exists>gc'. train_batches L e X y gc bs = Inr gc'"
proof (induction bs arbitrary: gc)
  case Nil
  show ?case by (simp del: split_paired_Ex)
next
  case (Cons b bs)
  have "b < n_batches" using Cons.prems(3) by simp
  from train_batch_ok [OF L X y Cons.prems(1,2) this, of e]
  obtain gc1 where s: "train_batch L e X y gc b = Inr gc1"
      "feed_compatible cell_state (fst (snd gc1))" "feed_compatible hidden_state (snd (snd gc1))"
    by blast
  have "\<forall>b\<in>set bs. b < n_batches" using Cons.prems(3) by simp
  from Cons.IH [OF s(2,3) this] show ?case using s(1) by simp
qed

lemma generateData_library:
  assumes "library_ok L"
  shows "\<exists>X y. generateData (random_choice L e) = Inr (X, y)
           \<and> length X = batch_size \<and> list_all (\<lambda>row. length row = 10000) X
           \<and> length y = batch_size \<and> list_all (\<lambda>row. length row = 10000) y"
proof -
  have "length (random_choice L e) = total_series_length"
    using assms by (simp add: library_ok_def random_choice_post_def)
  from generateData_Inr [OF this] show ?thesis by blast
qed

lemma zeros_compatible:
  "feed_compatible cell_state (np_zeros batch_size n_hidden)"
  "feed_compatible hidden_state (np_zeros batch_size n_hidden)"
  by (simp_all add: cell_state_def hidden_state_def feed_compatible_iff np_shape_zeros
        batch_size_def)

lemma train_epoch_ok:
  assumes L: "library_ok L"
  shows "\<exists>g'. train_epoch L g e = Inr g'"
proof -
  obtain X y where d: "generateData (random_choice L e) = Inr (X, y)"
      "length X = batch_size" "list_all (\<lambda>row. length row = 10000) X"
      "length y = batch_size" "list_all (\<lambda>row. length row = 10000) y"
    using generateData_library [OF L] by blast
  let ?g = "g\<lparr>trace := trace g @ [PrintBlank, PrintEpoch e, CallGenerateData e (Inr (X, y))]\<rparr>"
  let ?gc = "(?g, (np_zeros batch_size n_hidden, np_zeros batch_size n_hidden))"
  have "\<exists>gc'. train_batches L e X y ?gc [0..<n_batches] = Inr gc'"
    by (rule train_batches_ok [OF L d(2-5)]) (simp_all add: zeros_compatible)
  then show ?thesis using d(1) by (auto simp: train_epoch_def Let_def)
qed

lemma train_epochs_ok:
  assumes L: "library_ok L"
  shows "\<exists>g'. train_epochs L g es = Inr g'"
proof (induction es arbitrary: g)
  case Nil
  show ?case by simp
next
  case (Cons e es)
  obtain g1 where "train_epoch L g e = Inr g1" using train_epoch_ok [OF L] by blast
  then show ?case using Cons.IH [of g1] by simp
qed

lemma exec_cells_ok:
  assumes L: "library_ok L"
  shows "exec_cells L ss tr = Inr (tr @ map (\<lambda>s. Exec s (Inr ())) ss)"
proof (induction ss arbitrary: tr)
  case Nil
  show ?case by simp
next
  case (Cons s ss)
  have "exec_stmt L s = Inr ()" using L by (simp add: exec_stmt_def library_ok_def)
  then show ?case using Cons.IH by (simp add: Let_def)
qed

lemma notebook_ok:
  assumes L: "library_ok L"
  shows "\<exists>v g. session_init L = Inr v
           \<and> train_epochs L \<lparr>sess = v, training_losses = [],
                 trace = map (\<lambda>s. Exec s (Inr ())) graph_cells @ [SessionInit (Inr v)]\<rparr>
               [0..<n_epochs] = Inr g
           \<and> notebook L = \<lparr>raised = None,
                 events = trace g @ [Plot (training_losses g) (Inr ())],
                 final_losses = training_losses g\<rparr>"
proof -
  obtain v where v: "session_init L = Inr v" using L unfolding library_ok_def by blast
  let ?g = "\<lparr>sess = v, training_losses = [],
             trace = map (\<lambda>s. Exec s (Inr ())) graph_cells @ [SessionInit (Inr v)]\<rparr>"
  obtain g where g: "train_epochs L ?g [0..<n_epochs] = Inr g"
    using train_epochs_ok [OF L] by blast
  have p: "plt_plot L (training_losses g) = Inr ()" using L by (simp add: library_ok_def)
  have "notebook L = \<lparr>raised = None, events = trace g @ [Plot (training_losses g) (Inr ())],
          final_losses = training_losses g\<rparr>"
    using v g p by (simp add: notebook_def exec_cells_ok [OF L] Let_def)
  then show ?thesis using v g by blast
qed

lemma demo_library_ok: "library_ok demo_library"
  by (auto simp: library_ok_def demo_library_def random_choice_post_def feed_check_def
        n_classes_def list_all_iff)

section \<open>The shape of the trace\<close>

lemma train_batch_trace:
  assumes "train_batch L e X y gc b = Inr gc'"
  shows "\<exists>ext. trace (fst gc') = trace (fst gc) @ ext \<and> list_all batch_event ext"
  using train_batch_Inr [OF assms] by auto

lemma train_batches_trace:
  "train_batches L e X y gc bs = Inr gc' \<Longrightarrow>
   \<exists>ext. trace (fst gc') = trace (fst gc) @ ext \<and> list_all batch_event ext"
proof (induction bs arbitrary: gc)
  case Nil
  then show ?case by simp
next
  case (Cons b bs)
  then obtain gc1 where s: "train_batch L e X y gc b = Inr gc1"
      "train_batches L e X y gc1 bs = Inr gc'"
    by (auto split: sum.splits)
  obtain ext1 where 1: "trace (fst gc1) = trace (fst gc) @ ext1" "list_all batch_event ext1"
    using train_batch_trace [OF s(1)] by blast
  obtain ext2 where 2: "trace (fst gc') = trace (fst gc1) @ ext2" "list_all batch_event ext2"
    using Cons.IH [OF s(2)] by blast
  have "trace (fst gc') = trace (fst gc) @ (ext1 @ ext2)" "list_all batch_event (ext1 @ ext2)"
    using 1 2 by simp_all
  then show ?case by blast
qed

lemma train_epoch_Inr:
  assumes "train_epoch L g e = Inr g'"
  shows "\<exists>X y gc'. generateData (random_choice L e) = Inr (X, y)
           \<and> train_batches L e X y
                (g\<lparr>trace := trace g @ epoch_opening L e\<rparr>,
                 (np_zeros batch_size n_hidden, np_zeros batch_size n_hidden))
                [0..<n_batches] = Inr gc'
           \<and> g' = fst gc'"
  using assms
  by (auto simp: train_epoch_def Let_def epoch_opening_def split: sum.splits prod.splits)

lemma train_epoch_trace:
  assumes "train_epoch L g e = Inr g'"
  shows "\<exists>blk. trace g' = trace g @ epoch_opening L e @ blk \<and> list_all batch_event blk"
proof -
  obtain X y gc' where s: "train_batches L e X y
                (g\<lparr>trace := trace g @ epoch_opening L e\<rparr>,
                 (np_zeros batch_size n_hidden, np_zeros batch_size n_hidden))
                [0..<n_batches] = Inr gc'" "g' = fst gc'"
    using train_epoch_Inr [OF assms] by blast
  from train_batches_trace [OF s(1)] s(2) show ?thesis by simp
qed

lemma train_epochs_trace:
  "train_epochs L g es = Inr g' \<Longrightarrow>
   \<exists>blocks. length blocks = length es \<and> list_all (list_all batch_event) blocks
     \<and> trace g' = trace g @ concat (map2 (\<lambda>e blk. epoch_opening L e @ blk) es blocks)"
proof (induction es arbitrary: g)
  case Nil
  then show ?case by simp
next
  case (Cons e es)
  then obtain g1 where s: "train_epoch L g e = Inr g1" "train_epochs L g1 es = Inr g'"
    by (auto split: sum.splits)
  obtain blk where 1: "trace g1 = trace g @ epoch_opening L e @ blk" "list_all batch_event blk"
    using train_epoch_trace [OF s(1)] by blast
  obtain blocks where 2: "length blocks = length es" "list_all (list_all batch_event) blocks"
      "trace g' = trace g1 @ concat (map2 (\<lambda>e blk. epoch_opening L e @ blk) es blocks)"
    using Cons.IH [OF s(2)] by blast
  have "length (blk # blocks) = length (e # es)"
       "list_all (list_all batch_event) (blk # blocks)"
       "trace g' = trace g @ concat (map2 (\<lambda>e blk. epoch_opening L e @ blk) (e # es) (blk # blocks))"
    using 1 2 by simp_all
  then show ?case by blast
qed

section \<open>Which batches are fed\<close>

lemma train_batch_index:
  assumes "train_batch L e X y gc b = Inr gc'"
  shows "map call_index (sess_runs (trace (fst gc')))
           = map call_index (sess_runs (trace (fst gc))) @ [(e, b)]"
  using train_batch_Inr [OF assms] by (auto simp: call_index_def)

lemma train_batches_index:
  "train_batches L e X y gc bs = Inr gc' \<Longrightarrow>
   map call_index (sess_runs (trace (fst gc')))
     = map call_index (sess_runs (trace (fst gc))) @ map (Pair e) bs"
proof (induction bs arbitrary: gc)
  case Nil
  then show ?case by simp
next
  case (Cons b bs)
  then obtain gc1 where s: "train_batch L e X y gc b = Inr gc1"
      "train_batches L e X y gc1 bs = Inr gc'"
    by (auto split: sum.splits)
  show ?case using Cons.IH [OF s(2)] train_batch_index [OF s(1)] by simp
qed

lemma sess_runs_opening [simp]: "sess_runs (epoch_opening L e) = []"
  by (simp add: epoch_opening_def)

lemma printed_steps_opening [simp]: "printed_steps (epoch_opening L e) = []"
  by (simp add: epoch_opening_def)

lemma train_epoch_index:
  assumes "train_epoch L g e = Inr g'"
  shows "map call_index (sess_runs (trace g'))
           = map call_index (sess_runs (trace g)) @ map (Pair e) [0..<n_batches]"
proof -
  obtain X y gc' where s: "train_batches L e X y
                (g\<lparr>trace := trace g @ epoch_opening L e\<rparr>,
                 (np_zeros batch_size n_hidden, np_zeros batch_size n_hidden))
                [0..<n_batches] = Inr gc'" "g' = fst gc'"
    using train_epoch_Inr [OF assms] by blast
  from train_batches_index [OF s(1)] s(2) show ?thesis by simp
qed

lemma train_epochs_index:
  "train_epochs L g es = Inr g' \<Longrightarrow>
   map call_index (sess_runs (trace g'))
     = map call_index (sess_runs (trace g)) @ List.product es [0..<n_batches]"
proof (induction es arbitrary: g)
  case Nil
  then show ?case by simp
next
  case (Cons e es)
  then obtain g1 where s: "train_epoch L g e = Inr g1" "train_epochs L g1 es = Inr g'"
    by (auto split: sum.splits)
  show ?case using Cons.IH [OF s(2)] train_epoch_index [OF s(1)] by simp
qed

section \<open>Losses and step lines\<close>

lemma step_lines_snoc:
  assumes "length ls = length rs"
  shows "step_lines (ls @ [lv]) (rs @ [(e, b, fd, r)])
           = step_lines ls rs @ (if b mod 100 = 0 then [(b, lv)] else [])"
  using assms by (simp add: step_lines_def)

lemma train_batch_losses:
  assumes "train_batch L e X y gc b = Inr gc'"
    and "list_all2 returned (training_losses (fst gc)) (sess_runs (trace (fst gc)))"
    and "printed_steps (trace (fst gc))
           = step_lines (training_losses (fst gc)) (sess_runs (trace (fst gc)))"
  shows "list_all2 returned (training_losses (fst gc')) (sess_runs (trace (fst gc')))
       \<and> printed_steps (trace (fst gc'))
           = step_lines (training_losses (fst gc')) (sess_runs (trace (fst gc')))"
proof -
  let ?ls = "training_losses (fst gc)" and ?rs = "sess_runs (trace (fst gc))"
  obtain lv v fd where s: "fst gc' = (fst gc)\<lparr>sess := v,
                 training_losses := ?ls @ [lv],
                 trace := trace (fst gc) @ SessRun e b fd (Inr (lv, v, snd gc'))
                            # (if b mod 100 = 0 then [PrintStep b lv] else [])\<rparr>"
    using train_batch_Inr [OF assms(1)] by blast
  have len: "length ?ls = length ?rs" using assms(2) by (rule list_all2_lengthD)
  have ls: "training_losses (fst gc') = ?ls @ [lv]" using s by simp
  have rs: "sess_runs (trace (fst gc')) = ?rs @ [(e, b, fd, Inr (lv, v, snd gc'))]"
    using s by simp
  have ps: "printed_steps (trace (fst gc'))
              = printed_steps (trace (fst gc)) @ (if b mod 100 = 0 then [(b, lv)] else [])"
    using s by simp
  have "returned lv (e, b, fd, Inr (lv, v, snd gc'))" by (simp add: returned_def)
  then have "list_all2 returned (?ls @ [lv]) (?rs @ [(e, b, fd, Inr (lv, v, snd gc'))])"
    using assms(2) by (intro list_all2_appendI) simp_all
  moreover have "printed_steps (trace (fst gc'))
      = step_lines (?ls @ [lv]) (?rs @ [(e, b, fd, Inr (lv, v, snd gc'))])"
    unfolding ps assms(3) step_lines_snoc [OF len] ..
  ultimately show ?thesis unfolding ls rs by simp
qed

lemma train_batches_losses:
  "train_batches L e X y gc bs = Inr gc' \<Longrightarrow>
   list_all2 returned (training_losses (fst gc)) (sess_runs (trace (fst gc))) \<Longrightarrow>
   printed_steps (trace (fst gc))
     = step_lines (training_losses (fst gc)) (sess_runs (trace (fst gc))) \<Longrightarrow>
   list_all2 returned (training_losses (fst gc')) (sess_runs (trace (fst gc')))
   \<and> printed_steps (trace (fst gc'))
       = step_lines (training_losses (fst gc')) (sess_runs (trace (fst gc')))"
proof (induction bs arbitrary: gc)
  case Nil
  then show ?case by simp
next
  case (Cons b bs)
  from Cons.prems(1) obtain gc1 where s: "train_batch L e X y gc b = Inr gc1"
      "train_batches L e X y gc1 bs = Inr gc'"
    by (auto split: sum.splits)
  from train_batch_losses [OF s(1) Cons.prems(2,3)]
  show ?case using Cons.IH [OF s(2)] by blast
qed

lemma train_epoch_losses:
  assumes "train_epoch L g e = Inr g'"
    and "list_all2 returned (training_losses g) (sess_runs (trace g))"
    and "printed_steps (trace g) = step_lines (training_losses g) (sess_runs (trace g))"
  shows "list_all2 returned (training_losses g') (sess_runs (trace g'))
       \<and> printed_steps (trace g') = step_lines (training_losses g') (sess_runs (trace g'))"
proof -
  obtain X y gc' where s: "train_batches L e X y
                (g\<lparr>trace := trace g @ epoch_opening L e\<rparr>,
                 (np_zeros batch_size n_hidden, np_zeros batch_size n_hidden))
                [0..<n_batches] = Inr gc'" "g' = fst gc'"
    using train_epoch_Inr [OF assms(1)] by blast
  show ?thesis
    using train_batches_losses [OF s(1)] assms(2,3) s(2) by simp
qed

lemma train_epochs_losses:
  "train_epochs L g es = Inr g' \<Longrightarrow>
   list_all2 returned (training_losses g) (sess_runs (trace g)) \<Longrightarrow>
   printed_steps (trace g) = step_lines (training_losses g) (sess_runs (trace g)) \<Longrightarrow>
   list_all2 returned (training_losses g') (sess_runs (trace g'))
   \<and> printed_steps (trace g') = step_lines (training_losses g') (sess_runs (trace g'))"
proof (induction es arbitrary: g)
  case Nil
  then show ?case by simp
next
  case (Cons e es)
  from Cons.prems(1) obtain g1 where s: "train_epoch L g e = Inr g1"
      "train_epochs L g1 es = Inr g'"
    by (auto split: sum.splits)
  from train_epoch_losses [OF s(1) Cons.prems(2,3)]
  show ?case using Cons.IH [OF s(2)] by blast
qed

section \<open>What is fed\<close>

lemma train_batch_fed:
  assumes "train_batch L e X y gc b = Inr gc'"
    and "generateData (random_choice L e) = Inr (X, y)"
    and "list_all (fed_from L) (sess_runs (trace (fst gc)))"
  shows "list_all (fed_from L) (sess_runs (trace (fst gc')))"
proof -
  obtain lv v fd where s: "fd = \<lparr>fd_X = column_slice X (b * 15) (b * 15 + 15),
                         fd_y = column_slice y (b * 15) (b * 15 + 15),
                         fd_cell_state = fst (snd gc), fd_hidden_state = snd (snd gc)\<rparr>"
      "feed_check fd"
      "fst gc' = (fst gc)\<lparr>sess := v,
                 training_losses := training_losses (fst gc) @ [lv],
                 trace := trace (fst gc) @ SessRun e b fd (Inr (lv, v, snd gc'))
                            # (if b mod 100 = 0 then [PrintStep b lv] else [])\<rparr>"
    using train_batch_Inr [OF assms(1)] by blast
  have "fed_from L (e, b, fd, Inr (lv, v, snd gc'))"
    using s(1,2) assms(2) by (simp add: fed_from_def truncated_backprop_steps_def)
  then show ?thesis using assms(3) s(3) by simp
qed

lemma train_batches_fed:
  "train_batches L e X y gc bs = Inr gc' \<Longrightarrow>
   generateData (random_choice L e) = Inr (X, y) \<Longrightarrow>
   list_all (fed_from L) (sess_runs (trace (fst gc))) \<Longrightarrow>
   list_all (fed_from L) (sess_runs (trace (fst gc')))"
proof (induction bs arbitrary: gc)
  case Nil
  then show ?case by simp
next
  case (Cons b bs)
  from Cons.prems(1) obtain gc1 where s: "train_batch L e X y gc b = Inr gc1"
      "train_batches L e X y gc1 bs = Inr gc'"
    by (auto split: sum.splits)
  from train_batch_fed [OF s(1) Cons.prems(2,3)]
  show ?case using Cons.IH [OF s(2) Cons.prems(2)] by blast
qed

lemma train_epoch_fed:
  assumes "train_epoch L g e = Inr g'"
    and "list_all (fed_from L) (sess_runs (trace g))"
  shows "list_all (fed_from L) (sess_runs (trace g'))"
proof -
  obtain X y gc' where s: "generateData (random_choice L e) = Inr (X, y)"
      "train_batches L e X y
                (g\<lparr>trace := trace g @ epoch_opening L e\<rparr>,
                 (np_zeros batch_size n_hidden, np_zeros batch_size n_hidden))
                [0..<n_batches] = Inr gc'" "g' = fst gc'"
    using train_epoch_Inr [OF assms(1)] by blast
  show ?thesis
    using train_batches_fed [OF s(2,1)] assms(2) s(3) by simp
qed

lemma train_epochs_fed:
  "train_epochs L g es = Inr g' \<Longrightarrow>
   list_all (fed_from L) (sess_runs (trace g)) \<Longrightarrow>
   list_all (fed_from L) (sess_runs (trace g'))"
proof (induction es arbitrary: g)
  case Nil
  then show ?case by simp
next
  case (Cons e es)
  from Cons.prems(1) obtain g1 where s: "train_epoch L g e = Inr g1"
      "train_epochs L g1 es = Inr g'"
    by (auto split: sum.splits)
  from train_epoch_fed [OF s(1) Cons.prems(2)]
  show ?case using Cons.IH [OF s(2)] by blast
qed

section \<open>How the LSTM state is threaded\<close>

lemma state_linked_snoc_old:
  assumes "k < length rs"
  shows "state_linked (rs @ [c]) k = state_linked rs k"
proof -
  have "k - 1 < length rs" using assms by arith
  then have a: "(rs @ [c]) ! k = rs ! k" and b: "(rs @ [c]) ! (k - 1) = rs ! (k - 1)"
    using assms by (simp_all add: nth_append del: One_nat_def)
  show ?thesis unfolding state_linked_def a b ..
qed

lemma state_linked_snoc_new:
  assumes "pending e b cur rs"
  shows "state_linked (rs @ [(e, b, \<lparr>fd_X = bx, fd_y = by, fd_cell_state = fst cur,
                                     fd_hidden_state = snd cur\<rparr>, r)]) (length rs)"
proof (cases "b = 0")
  case True
  then show ?thesis using assms by (simp add: state_linked_def pending_def)
next
  case False
  then obtain fd lv v where l: "rs \<noteq> []" "last rs = (e, b - 1, fd, Inr (lv, v, cur))"
    using assms by (auto simp: pending_def)
  then have "rs ! (length rs - 1) = (e, b - 1, fd, Inr (lv, v, cur))"
    by (simp add: last_conv_nth)
  then show ?thesis using False l(1) by (simp add: state_linked_def nth_append)
qed

lemma train_batch_linked:
  assumes "train_batch L e X y gc b = Inr gc'"
    and "\<forall>k<length (sess_runs (trace (fst gc))). state_linked (sess_runs (trace (fst gc))) k"
    and "pending e b (snd gc) (sess_runs (trace (fst gc)))"
  shows "(\<forall>k<length (sess_runs (trace (fst gc'))). state_linked (sess_runs (trace (fst gc'))) k)
       \<and> pending e (Suc b) (snd gc') (sess_runs (trace (fst gc')))"
proof -
  let ?rs = "sess_runs (trace (fst gc))"
  obtain lv v fd where s: "fd = \<lparr>fd_X = column_slice X (b * 15) (b * 15 + 15),
                         fd_y = column_slice y (b * 15) (b * 15 + 15),
                         fd_cell_state = fst (snd gc), fd_hidden_state = snd (snd gc)\<rparr>"
      "fst gc' = (fst gc)\<lparr>sess := v,
                 training_losses := training_losses (fst gc) @ [lv],
                 trace := trace (fst gc) @ SessRun e b fd (Inr (lv, v, snd gc'))
                            # (if b mod 100 = 0 then [PrintStep b lv] else [])\<rparr>"
    using train_batch_Inr [OF assms(1)] by blast
  let ?c = "(e, b, fd, Inr (lv, v, snd gc'))"
  have rs: "sess_runs (trace (fst gc')) = ?rs @ [?c]" using s(2) by simp
  have new: "state_linked (?rs @ [?c]) (length ?rs)"
    unfolding s(1) by (rule state_linked_snoc_new [OF assms(3)])
  have "state_linked (?rs @ [?c]) k" if "k < length (?rs @ [?c])" for k
  proof (cases "k < length ?rs")
    case True
    then show ?thesis using assms(2) by (simp add: state_linked_snoc_old)
  next
    case False
    then have "k = length ?rs" using that by simp
    then show ?thesis using new by simp
  qed
  moreover have "pending e (Suc b) (snd gc') (?rs @ [?c])"
    by (simp add: pending_def)
  ultimately show ?thesis unfolding rs by blast
qed

lemma train_batches_linked:
  "train_batches L e X y gc [b..<n] = Inr gc' \<Longrightarrow>
   \<forall>k<length (sess_runs (trace (fst gc))). state_linked (sess_runs (trace (fst gc))) k \<Longrightarrow>
   pending e b (snd gc) (sess_runs (trace (fst gc))) \<Longrightarrow>
   \<forall>k<length (sess_runs (trace (fst gc'))). state_linked (sess_runs (trace (fst gc'))) k"
proof (induction "n - b" arbitrary: b gc)
  case 0
  have e: "[b..<n] = []" using "0.hyps" by simp
  show ?case using "0.prems" unfolding e by simp
next
  case (Suc d)
  then have "[b..<n] = b # [Suc b..<n]" by (simp add: upt_conv_Cons)
  with Suc.prems(1) obtain gc1 where s: "train_batch L e X y gc b = Inr gc1"
      "train_batches L e X y gc1 [Suc b..<n] = Inr gc'"
    by (auto split: sum.splits)
  have d: "d = n - Suc b" using Suc.hyps(2) by simp
  from train_batch_linked [OF s(1) Suc.prems(2,3)]
  show ?case using Suc.hyps(1) [OF d s(2)] by blast
qed

lemma train_epoch_linked:
  assumes "train_epoch L g e = Inr g'"
    and "\<forall>k<length (sess_runs (trace g)). state_linked (sess_runs (trace g)) k"
  shows "\<forall>k<length (sess_runs (trace g')). state_linked (sess_runs (trace g')) k"
proof -
  obtain X y gc' where s: "train_batches L e X y
                (g\<lparr>trace := trace g @ epoch_opening L e\<rparr>,
                 (np_zeros batch_size n_hidden, np_zeros batch_size n_hidden))
                [0..<n_batches] = Inr gc'" "g' = fst gc'"
    using train_epoch_Inr [OF assms(1)] by blast
  show ?thesis
    using train_batches_linked [OF s(1)] assms(2) s(2) by (simp add: pending_def)
qed

lemma train_epochs_linked:
  "train_epochs L g es = Inr g' \<Longrightarrow>
   \<forall>k<length (sess_runs (trace g)). state_linked (sess_runs (trace g)) k \<Longrightarrow>
   \<forall>k<length (sess_runs (trace g')). state_linked (sess_runs (trace g')) k"
proof (induction es arbitrary: g)
  case Nil
  then show ?case by simp
next
  case (Cons e es)
  from Cons.prems(1) obtain g1 where s: "train_epoch L g e = Inr g1"
      "train_epochs L g1 es = Inr g'"
    by (auto split: sum.splits)
  from train_epoch_linked [OF s(1) Cons.prems(2)]
  show ?case using Cons.IH [OF s(2)] by blast
qed

section \<open>The finished run\<close>

lemma sess_runs_cells [simp]: "sess_runs (map (\<lambda>s. Exec s (Inr ())) ss) = []"
  by (induction ss) simp_all

lemma printed_steps_cells [simp]: "printed_steps (map (\<lambda>s. Exec s (Inr ())) ss) = []"
  by (induction ss) simp_all

lemma notebook_finished:
  fixes L :: "'v library"
  assumes L: "library_ok L"
  shows "\<exists>v (g :: 'v globals) blocks.
           session_init L = Inr v
         \<and> notebook L = \<lparr>raised = None,
                 events = trace g @ [Plot (training_losses g) (Inr ())],
                 final_losses = training_losses g\<rparr>
         \<and> length blocks = n_epochs \<and> list_all (list_all batch_event) blocks
         \<and> trace g = (map (\<lambda>s. Exec s (Inr ())) graph_cells @ [SessionInit (Inr v)])
                       @ concat (map2 (\<lambda>e blk. epoch_opening L e @ blk) [0..<n_epochs] blocks)
         \<and> map call_index (sess_runs (trace g)) = List.product [0..<n_epochs] [0..<n_batches]
         \<and> list_all2 returned (training_losses g) (sess_runs (trace g))
         \<and> printed_steps (trace g) = step_lines (training_losses g) (sess_runs (trace g))
         \<and> list_all (fed_from L) (sess_runs (trace g))
         \<and> (\<forall>k<length (sess_runs (trace g)). state_linked (sess_runs (trace g)) k)"
proof -
  obtain v g where n: "session_init L = Inr v"
      "train_epochs L \<lparr>sess = v, training_losses = [],
              trace = map (\<lambda>s. Exec s (Inr ())) graph_cells @ [SessionInit (Inr v)]\<rparr>
         [0..<n_epochs] = Inr g"
      "notebook L = \<lparr>raised = None, events = trace g @ [Plot (training_losses g) (Inr ())],
                 final_losses = training_losses g\<rparr>"
    using notebook_ok [OF L] by blast
  obtain blocks where b: "length blocks = length [0..<n_epochs]"
      "list_all (list_all batch_event) blocks"
      "trace g = (map (\<lambda>s. Exec s (Inr ())) graph_cells @ [SessionInit (Inr v)])
                       @ concat (map2 (\<lambda>e blk. epoch_opening L e @ blk) [0..<n_epochs] blocks)"
    using train_epochs_trace [OF n(2)] by auto
  have i: "map call_index (sess_runs (trace g)) = List.product [0..<n_epochs] [0..<n_batches]"
    using train_epochs_index [OF n(2)] by simp
  have "list_all2 returned (training_losses g) (sess_runs (trace g))
         \<and> printed_steps (trace g) = step_lines (training_losses g) (sess_runs (trace g))"
    using train_epochs_losses [OF n(2)] by (simp add: step_lines_def)
  then have l1: "list_all2 returned (training_losses g) (sess_runs (trace g))"
    and l2: "printed_steps (trace g) = step_lines (training_losses g) (sess_runs (trace g))"
    by simp_all
  have b1: "length blocks = n_epochs" using b(1) by simp
  note n1 = n(1) and n3 = n(3) and b2 = b(2) and b3 = b(3)
  have f: "list_all (fed_from L) (sess_runs (trace g))"
    using train_epochs_fed [OF n(2)] by simp
  have c: "\<forall>k<length (sess_runs (trace g)). state_linked (sess_runs (trace g)) k"
    using train_epochs_linked [OF n(2)] by simp
  show ?thesis
    by (rule exI [of _ v], rule exI [of _ g], rule exI [of _ blocks], (intro conjI; fact))
qed

lemma product_upt_nth:
  assumes "k < m * n"
  shows "List.product [0..<m] [0..<n] ! k = (k div n, k mod n)"
proof -
  have n: "0 < n" using assms by (cases n) simp_all
  have "k div n < m" using assms n by (simp add: less_mult_imp_div_less)
  moreover have "k mod n < n" using n by simp
  ultimately show ?thesis using assms by (simp add: List.product_nth)
qed

lemma counts: "n_epochs * n_batches = 13320"
  by (simp add: n_epochs_def n_batches_eq)

section \<open>The session runs of a finished run\<close>

lemma notebook_calls:
  fixes L :: "'v library"
  assumes L: "library_ok L"
  shows "length (sess_runs (events (notebook L))) = n_epochs * n_batches
       \<and> length (final_losses (notebook L)) = n_epochs * n_batches
       \<and> printed_steps (events (notebook L))
           = step_lines (final_losses (notebook L)) (sess_runs (events (notebook L)))
       \<and> last (events (notebook L)) = Plot (final_losses (notebook L)) (Inr ())
       \<and> (\<forall>k<n_epochs * n_batches.
            (\<exists>fd v st. sess_runs (events (notebook L)) ! k
                 = (k div n_batches, k mod n_batches, fd,
                    Inr (final_losses (notebook L) ! k, v, st)))
            \<and> fed_from L (sess_runs (events (notebook L)) ! k)
            \<and> state_linked (sess_runs (events (notebook L))) k)"
proof -
  obtain v and g :: "'v globals" and blocks where n:
      "notebook L = \<lparr>raised = None, events = trace g @ [Plot (training_losses g) (Inr ())],
                 final_losses = training_losses g\<rparr>"
      "map call_index (sess_runs (trace g)) = List.product [0..<n_epochs] [0..<n_batches]"
      "list_all2 returned (training_losses g) (sess_runs (trace g))"
      "printed_steps (trace g) = step_lines (training_losses g) (sess_runs (trace g))"
      "list_all (fed_from L) (sess_runs (trace g))"
      "\<forall>k<length (sess_runs (trace g)). state_linked (sess_runs (trace g)) k"
    using notebook_finished [OF L] by blast
  let ?rs = "sess_runs (trace g)" and ?ls = "training_losses g"
  have ev: "sess_runs (events (notebook L)) = ?rs" "final_losses (notebook L) = ?ls"
      "printed_steps (events (notebook L)) = printed_steps (trace g)"
      "last (events (notebook L)) = Plot ?ls (Inr ())"
    using n(1) by simp_all
  have "length (map call_index ?rs) = n_epochs * n_batches"
    unfolding n(2) by simp
  then have len: "length ?rs = n_epochs * n_batches" by simp
  have len': "length ?ls = n_epochs * n_batches"
    using list_all2_lengthD [OF n(3)] len by simp
  have each: "(\<exists>fd v st. ?rs ! k = (k div n_batches, k mod n_batches, fd, Inr (?ls ! k, v, st)))
        \<and> fed_from L (?rs ! k) \<and> state_linked ?rs k" if k: "k < n_epochs * n_batches" for k
  proof -
    have "map call_index ?rs ! k = (k div n_batches, k mod n_batches)"
      unfolding n(2) by (rule product_upt_nth [OF k])
    then have ci: "call_index (?rs ! k) = (k div n_batches, k mod n_batches)"
      using k len by simp
    have "returned (?ls ! k) (?rs ! k)"
      using n(3) k len by (simp add: list_all2_conv_all_nth)
    then obtain v st where r: "snd (snd (snd (?rs ! k))) = Inr (?ls ! k, v, st)"
      unfolding returned_def by blast
    obtain e b fd res where c: "?rs ! k = (e, b, fd, res)" by (cases "?rs ! k") auto
    have "?rs ! k = (k div n_batches, k mod n_batches, fd, Inr (?ls ! k, v, st))"
      using ci r c by (simp add: call_index_def)
    moreover have "fed_from L (?rs ! k)"
      using n(5) k len by (simp add: list_all_length)
    moreover have "state_linked ?rs k" using n(6) k len by simp
    ultimately show ?thesis by blast
  qed
  show ?thesis unfolding ev using len len' n(4) each by blast
qed

text \<open>
  Claim C6. After a run in which the library behaves, \<open>training_losses\<close> holds
  \<open>n_epochs * n_batches = 20 * 666 = 13320\<close> values: its \<open>k\<close>-th entry is the loss returned
  by the \<open>k\<close>-th session run, which is batch \<open>k mod n_batches\<close> of epoch
  \<open>k div n_batches\<close>; and the last operation of the run plots exactly this list.
\<close>

theorem training_losses_complete:
  fixes L :: "'v library"
  assumes "library_ok L"
  shows "n_epochs * n_batches = 13320 \<and> n_epochs = 20 \<and> n_batches = 666
       \<and> length (final_losses (notebook L)) = 13320
       \<and> length (sess_runs (events (notebook L))) = 13320
       \<and> (\<forall>k<13320. \<exists>fd v st. sess_runs (events (notebook L)) ! k
              = (k div 666, k mod 666, fd, Inr (final_losses (notebook L) ! k, v, st)))
       \<and> last (events (notebook L)) = Plot (final_losses (notebook L)) (Inr ())"
  using notebook_calls [OF assms] by (simp add: counts n_batches_eq n_epochs_def)

theorem training_losses_complete_witness:
  "library_ok demo_library
   \<and> length (final_losses (notebook demo_library)) = 13320
   \<and> length (sess_runs (events (notebook demo_library))) = 13320
   \<and> (\<exists>fd v st. sess_runs (events (notebook demo_library)) ! 667
              = (1, 1, fd, Inr (final_losses (notebook demo_library) ! 667, v, st)))
   \<and> last (events (notebook demo_library)) = Plot (final_losses (notebook demo_library)) (Inr ())"
proof -
  have "(667::nat) < 13320" "(667::nat) div 666 = 1" "(667::nat) mod 666 = 1" by simp_all
  then show ?thesis
    using training_losses_complete [OF demo_library_ok] demo_library_ok by metis
qed

text \<open>
  Claim C8. In a run in which the library behaves, the first batch of every epoch is fed
  zero matrices of shape (5, 20) as cell state and as hidden state, and every later batch
  is fed exactly the final state returned by the session run just before it, which is the
  previous batch of the same epoch; so no state crosses an epoch boundary.
\<close>

theorem lstm_state_threading:
  fixes L :: "'v library"
  assumes "library_ok L"
  shows "length (sess_runs (events (notebook L))) = n_epochs * n_batches
       \<and> (\<forall>k<n_epochs * n_batches.
            \<exists>fd r. sess_runs (events (notebook L)) ! k = (k div n_batches, k mod n_batches, fd, r)
              \<and> (k mod n_batches = 0 \<longrightarrow>
                    fd_cell_state fd = replicate 5 (replicate 20 0) \<and>
                    fd_hidden_state fd = replicate 5 (replicate 20 0))
              \<and> (k mod n_batches \<noteq> 0 \<longrightarrow>
                    (\<exists>fd' lv v. sess_runs (events (notebook L)) ! (k - 1)
                       = (k div n_batches, k mod n_batches - 1, fd',
                          Inr (lv, v, (fd_cell_state fd, fd_hidden_state fd))))))"
proof -
  let ?rs = "sess_runs (events (notebook L))"
  note c = notebook_calls [OF assms]
  have "\<exists>fd r. ?rs ! k = (k div n_batches, k mod n_batches, fd, r)
              \<and> (k mod n_batches = 0 \<longrightarrow>
                    fd_cell_state fd = replicate 5 (replicate 20 0) \<and>
                    fd_hidden_state fd = replicate 5 (replicate 20 0))
              \<and> (k mod n_batches \<noteq> 0 \<longrightarrow>
                    (\<exists>fd' lv v. ?rs ! (k - 1)
                       = (k div n_batches, k mod n_batches - 1, fd',
                          Inr (lv, v, (fd_cell_state fd, fd_hidden_state fd)))))"
    if k: "k < n_epochs * n_batches" for k
  proof -
    obtain fd v st where r: "?rs ! k = (k div n_batches, k mod n_batches, fd,
        Inr (final_losses (notebook L) ! k, v, st))"
      using c k by blast
    have sl: "state_linked ?rs k" using c k by blast
    show ?thesis
      using sl r unfolding state_linked_def
      by (auto simp: np_zeros_def batch_size_def n_hidden_def)
  qed
  then show ?thesis using c by blast
qed

theorem lstm_state_threading_witness:
  "library_ok demo_library
   \<and> (\<exists>fd r. sess_runs (events (notebook demo_library)) ! 666 = (1, 0, fd, r)
        \<and> fd_cell_state fd = replicate 5 (replicate 20 0)
        \<and> fd_hidden_state fd = replicate 5 (replicate 20 0))
   \<and> (\<exists>fd r. sess_runs (events (notebook demo_library)) ! 667 = (1, 1, fd, r)
        \<and> (\<exists>fd' lv v. sess_runs (events (notebook demo_library)) ! 666
               = (1, 0, fd', Inr (lv, v, (fd_cell_state fd, fd_hidden_state fd)))))"
proof -
  have a: "(666::nat) < n_epochs * n_batches" "666 div n_batches = 1" "666 mod n_batches = 0"
    and b: "(667::nat) < n_epochs * n_batches" "667 div n_batches = 1" "667 mod n_batches = 1"
      "667 - 1 = (666::nat)" "667 mod n_batches - 1 = 0"
    by (simp_all add: n_epochs_def n_batches_eq)
  note t = lstm_state_threading [OF demo_library_ok]
  have 1: "\<exists>fd r. sess_runs (events (notebook demo_library)) ! 666 = (1, 0, fd, r)
        \<and> fd_cell_state fd = replicate 5 (replicate 20 0)
        \<and> fd_hidden_state fd = replicate 5 (replicate 20 0)"
    using t a by (metis (no_types, lifting))
  have 2: "\<exists>fd r. sess_runs (events (notebook demo_library)) ! 667 = (1, 1, fd, r)
        \<and> (\<exists>fd' lv v. sess_runs (events (notebook demo_library)) ! 666
               = (1, 0, fd', Inr (lv, v, (fd_cell_state fd, fd_hidden_state fd))))"
    using conjunct2 [OF t, rule_format, OF b(1)] unfolding b by auto
  show ?thesis using 1 2 demo_library_ok by blast
qed

section \<open>The order of the operations\<close>

lemma notebook_events:
  fixes L :: "'v library"
  assumes L: "library_ok L"
  shows "\<exists>v blocks. session_init L = Inr v \<and> length blocks = n_epochs
           \<and> list_all (list_all batch_event) blocks
           \<and> events (notebook L)
               = map (\<lambda>s. Exec s (Inr ())) graph_cells @ [SessionInit (Inr v)]
                 @ concat (map2 (\<lambda>e blk. epoch_opening L e @ blk) [0..<n_epochs] blocks)
                 @ [Plot (final_losses (notebook L)) (Inr ())]"
proof -
  obtain v and g :: "'v globals" and blocks where n:
      "session_init L = Inr v"
      "notebook L = \<lparr>raised = None, events = trace g @ [Plot (training_losses g) (Inr ())],
                 final_losses = training_losses g\<rparr>"
      "length blocks = n_epochs" "list_all (list_all batch_event) blocks"
      "trace g = (map (\<lambda>s. Exec s (Inr ())) graph_cells @ [SessionInit (Inr v)])
                       @ concat (map2 (\<lambda>e blk. epoch_opening L e @ blk) [0..<n_epochs] blocks)"
    using notebook_finished [OF L] by blast
  have "events (notebook L)
               = map (\<lambda>s. Exec s (Inr ())) graph_cells @ [SessionInit (Inr v)]
                 @ concat (map2 (\<lambda>e blk. epoch_opening L e @ blk) [0..<n_epochs] blocks)
                 @ [Plot (final_losses (notebook L)) (Inr ())]"
    unfolding n(2) using n(5) by simp
  then show ?thesis using n(1,3,4) by blast
qed

text \<open>
  Claim C3, as amended. In a run in which the library behaves the operations are, in this
  order: the imports and the configuration, the definition of \<open>generateData\<close>, the
  placeholders, the LSTM cell, the dynamic unrolling, the reshaping, the logits, the loss,
  the optimizer, the initialisation of the session, then for each epoch \<open>0, ..., 19\<close> in
  turn the two printed lines, the call of \<open>generateData\<close> and after it only session runs
  and printed step lines, and at the very end the plot. The training data is generated
  inside the loop, once at the start of every epoch.
\<close>

theorem notebook_order:
  fixes L :: "'v library"
  assumes "library_ok L"
  shows "\<exists>v blocks. length blocks = n_epochs \<and> n_epochs = 20
           \<and> list_all (list_all batch_event) blocks
           \<and> events (notebook L)
               = map (\<lambda>s. Exec s (Inr ()))
                   [Imports, Config, DefGenerateData, Placeholders, LSTMCell, DynamicRnn,
                    ReshapeOutputs, Logits, Loss, Optimizer]
                 @ [SessionInit (Inr v)]
                 @ concat (map2 (\<lambda>e blk.
                      [PrintBlank, PrintEpoch e,
                       CallGenerateData e (generateData (random_choice L e))] @ blk)
                     [0..<n_epochs] blocks)
                 @ [Plot (final_losses (notebook L)) (Inr ())]"
  using notebook_events [OF assms]
  unfolding graph_cells_def epoch_opening_def by (auto simp: n_epochs_def)

theorem notebook_order_witness:
  "library_ok demo_library \<and>
   (\<exists>v blocks. length blocks = n_epochs \<and> n_epochs = 20
           \<and> list_all (list_all batch_event) blocks
           \<and> events (notebook demo_library)
               = map (\<lambda>s. Exec s (Inr ()))
                   [Imports, Config, DefGenerateData, Placeholders, LSTMCell, DynamicRnn,
                    ReshapeOutputs, Logits, Loss, Optimizer]
                 @ [SessionInit (Inr v)]
                 @ concat (map2 (\<lambda>e blk.
                      [PrintBlank, PrintEpoch e,
                       CallGenerateData e (generateData (random_choice demo_library e))] @ blk)
                     [0..<n_epochs] blocks)
                 @ [Plot (final_losses (notebook demo_library)) (Inr ())])"
  using notebook_order [OF demo_library_ok] demo_library_ok by simp

text \<open>
  The claim as stated fails: on the demonstration library the first thirteen operations
  build the graph, open the session and print, and only the fourteenth generates data.
\<close>

theorem data_generated_inside_loop:
  "take 14 (events (notebook demo_library))
     = [Exec Imports (Inr ()), Exec Config (Inr ()), Exec DefGenerateData (Inr ()),
        Exec Placeholders (Inr ()), Exec LSTMCell (Inr ()), Exec DynamicRnn (Inr ()),
        Exec ReshapeOutputs (Inr ()), Exec Logits (Inr ()), Exec Loss (Inr ()),
        Exec Optimizer (Inr ()), SessionInit (Inr 0), PrintBlank, PrintEpoch 0,
        CallGenerateData 0 (generateData (replicate total_series_length 1))]"
proof -
  obtain v blocks where n: "session_init demo_library = Inr v" "length blocks = n_epochs"
      "events (notebook demo_library)
               = map (\<lambda>s. Exec s (Inr ())) graph_cells @ [SessionInit (Inr v)]
                 @ concat (map2 (\<lambda>e blk. epoch_opening demo_library e @ blk) [0..<n_epochs] blocks)
                 @ [Plot (final_losses (notebook demo_library)) (Inr ())]"
    using notebook_events [OF demo_library_ok] by blast
  have v: "v = 0" using n(1) by (simp add: demo_library_def)
  obtain blk rest where b: "blocks = blk # rest"
    using n(2) by (cases blocks) (simp_all add: n_epochs_def)
  have u: "[0..<n_epochs] = 0 # [1..<n_epochs]"
    by (simp add: n_epochs_def upt_conv_Cons)
  show ?thesis
    unfolding n(3) b u v
    by (simp add: graph_cells_def epoch_opening_def demo_library_def)
qed

section \<open>Feeding and printing\<close>

lemma zip_as_map:
  assumes "length xs = length ys"
  shows "zip xs ys = map (\<lambda>k. (xs ! k, ys ! k)) [0..<length xs]"
  using assms by (intro nth_equalityI) simp_all

lemma step_lines_multiple: "(b, lv) \<in> set (step_lines ls rs) \<Longrightarrow> b mod 100 = 0"
  by (auto simp: step_lines_def)

lemma notebook_step_lines:
  fixes L :: "'v library"
  assumes L: "library_ok L"
  shows "printed_steps (events (notebook L))
           = map (\<lambda>k. (k mod n_batches, final_losses (notebook L) ! k))
               (filter (\<lambda>k. k mod n_batches mod 100 = 0) [0..<n_epochs * n_batches])"
proof -
  let ?rs = "sess_runs (events (notebook L))" and ?ls = "final_losses (notebook L)"
  let ?N = "n_epochs * n_batches"
  note c = notebook_calls [OF L]
  have len: "length ?ls = ?N" "length ?rs = ?N" using c by simp_all
  have b: "fst (snd (?rs ! k)) = k mod n_batches" if k: "k < ?N" for k
  proof -
    obtain fd v st where "?rs ! k = (k div n_batches, k mod n_batches, fd, Inr (?ls ! k, v, st))"
      using c k by blast
    then show ?thesis by simp
  qed
  have z: "zip ?ls ?rs = map (\<lambda>k. (?ls ! k, ?rs ! k)) [0..<?N]"
    using zip_as_map [of ?ls ?rs] len by simp
  have f: "filter (\<lambda>k. fst (snd (?rs ! k)) mod 100 = 0) [0..<?N]
             = filter (\<lambda>k. k mod n_batches mod 100 = 0) [0..<?N]"
    by (rule filter_cong) (simp_all add: b)
  have "step_lines ?ls ?rs
          = map (\<lambda>k. (fst (snd (?rs ! k)), ?ls ! k))
              (filter (\<lambda>k. fst (snd (?rs ! k)) mod 100 = 0) [0..<?N])"
    unfolding step_lines_def z by (simp add: filter_map comp_def)
  also have "\<dots> = map (\<lambda>k. (k mod n_batches, ?ls ! k))
              (filter (\<lambda>k. k mod n_batches mod 100 = 0) [0..<?N])"
    unfolding f by (rule map_cong) (simp_all add: b)
  finally show ?thesis using c by simp
qed

lemma notebook_index:
  fixes L :: "'v library"
  assumes L: "library_ok L"
  shows "map call_index (sess_runs (events (notebook L)))
           = List.product [0..<n_epochs] [0..<n_batches]"
proof -
  obtain v and g :: "'v globals" and blocks where n:
      "notebook L = \<lparr>raised = None, events = trace g @ [Plot (training_losses g) (Inr ())],
                 final_losses = training_losses g\<rparr>"
      "map call_index (sess_runs (trace g)) = List.product [0..<n_epochs] [0..<n_batches]"
    using notebook_finished [OF L] by blast
  show ?thesis unfolding n(1) using n(2) by simp
qed

text \<open>
  Claim C4, as amended. In a run in which the library behaves, a mini-batch is fed to the
  session for every epoch in \<open>range(n_epochs)\<close> and every batch index in
  \<open>range(n_batches)\<close>, in this order, and its loss is recorded; the loss of a mini-batch
  is printed exactly when its batch index is a multiple of 100, with that index.
\<close>

theorem feeds_and_step_lines:
  fixes L :: "'v library"
  assumes "library_ok L"
  shows "map call_index (sess_runs (events (notebook L)))
           = List.product [0..<n_epochs] [0..<n_batches]
       \<and> (\<forall>k<n_epochs * n_batches. \<exists>fd v st. sess_runs (events (notebook L)) ! k
              = (k div n_batches, k mod n_batches, fd,
                 Inr (final_losses (notebook L) ! k, v, st)))
       \<and> printed_steps (events (notebook L))
           = map (\<lambda>k. (k mod n_batches, final_losses (notebook L) ! k))
               (filter (\<lambda>k. k mod n_batches mod 100 = 0) [0..<n_epochs * n_batches])"
  using notebook_index [OF assms] notebook_step_lines [OF assms] notebook_calls [OF assms]
  by blast

theorem feeds_and_step_lines_witness:
  "library_ok demo_library
   \<and> map call_index (sess_runs (events (notebook demo_library)))
           = List.product [0..<n_epochs] [0..<n_batches]
   \<and> (\<exists>fd v st. sess_runs (events (notebook demo_library)) ! 700
              = (1, 34, fd, Inr (final_losses (notebook demo_library) ! 700, v, st)))
   \<and> printed_steps (events (notebook demo_library))
           = map (\<lambda>k. (k mod n_batches, final_losses (notebook demo_library) ! k))
               (filter (\<lambda>k. k mod n_batches mod 100 = 0) [0..<n_epochs * n_batches])"
proof -
  have a: "(700::nat) < n_epochs * n_batches" "700 div n_batches = 1" "700 mod n_batches = 34"
    by (simp_all add: n_epochs_def n_batches_eq)
  note t = feeds_and_step_lines [OF demo_library_ok]
  have "\<exists>fd v st. sess_runs (events (notebook demo_library)) ! 700
              = (1, 34, fd, Inr (final_losses (notebook demo_library) ! 700, v, st))"
    using conjunct1 [OF conjunct2 [OF t], rule_format, OF a(1)] unfolding a by simp
  then show ?thesis using t demo_library_ok by blast
qed

text \<open>
  The claim as stated fails: on the demonstration library batch 1 of epoch 0 is fed, and
  no step line for a batch 1 is ever printed.
\<close>

theorem loss_not_printed_every_batch:
  "(0, 1) \<in> set (map call_index (sess_runs (events (notebook demo_library))))
   \<and> 1 \<notin> fst ` set (printed_steps (events (notebook demo_library)))"
proof -
  have "(0, 1) \<in> set (List.product [0..<n_epochs] [0..<n_batches])"
    by (simp add: n_epochs_def n_batches_eq)
  then have 1: "(0, 1) \<in> set (map call_index (sess_runs (events (notebook demo_library))))"
    unfolding notebook_index [OF demo_library_ok] .
  have "printed_steps (events (notebook demo_library))
          = step_lines (final_losses (notebook demo_library))
              (sess_runs (events (notebook demo_library)))"
    using notebook_calls [OF demo_library_ok] by blast
  then have 2: "1 \<notin> fst ` set (printed_steps (events (notebook demo_library)))"
    using step_lines_multiple by fastforce
  show ?thesis using 1 2 by blast
qed

section \<open>The slices fed to the session\<close>

lemma column_slice_nth:
  assumes "i < length m" "t < stop - start" "start + t < length (m ! i)"
  shows "column_slice m start stop ! i ! t = m ! i ! (start + t)"
  using assms by (simp add: column_slice_def)

lemma column_slice_all:
  assumes "list_all (list_all P) m"
  shows "list_all (list_all P) (column_slice m start stop)"
  using assms
  by (auto simp: column_slice_def list_all_iff dest!: in_set_takeD in_set_dropD)

lemma feed_check_shapes:
  "feed_check fd \<longleftrightarrow>
     np_shape (fd_X fd) = Some [5, 15] \<and> np_shape (fd_y fd) = Some [5, 15] \<and>
     np_shape (fd_cell_state fd) = Some [5, 20] \<and> np_shape (fd_hidden_state fd) = Some [5, 20]"
  by (simp add: feed_check_def X_placeholder_def y_placeholder_def cell_state_def
        hidden_state_def feed_compatible_iff batch_size_def truncated_backprop_steps_def
        n_hidden_def)

lemma fed_slices:
  fixes L :: "'v library"
  assumes L: "library_ok L" and k: "k < n_epochs * n_batches"
  shows "\<exists>X y fd r. generateData (random_choice L (k div n_batches)) = Inr (X, y)
           \<and> sess_runs (events (notebook L)) ! k = (k div n_batches, k mod n_batches, fd, r)
           \<and> fd_X fd = column_slice X (k mod n_batches * 15) (k mod n_batches * 15 + 15)
           \<and> fd_y fd = column_slice y (k mod n_batches * 15) (k mod n_batches * 15 + 15)
           \<and> feed_check fd
           \<and> length X = 5 \<and> list_all (\<lambda>row. length row = 10000) X
           \<and> length y = 5 \<and> list_all (\<lambda>row. length row = 10000) y"
proof -
  let ?rs = "sess_runs (events (notebook L))"
  note c = notebook_calls [OF L]
  obtain fd v st where r: "?rs ! k = (k div n_batches, k mod n_batches, fd,
      Inr (final_losses (notebook L) ! k, v, st))"
    using c k by blast
  have "fed_from L (?rs ! k)" using c k by blast
  then obtain X y where f: "feed_check fd"
      "generateData (random_choice L (k div n_batches)) = Inr (X, y)"
      "fd_X fd = column_slice X (k mod n_batches * 15) (k mod n_batches * 15 + 15)"
      "fd_y fd = column_slice y (k mod n_batches * 15) (k mod n_batches * 15 + 15)"
    unfolding r fed_from_def by (auto simp: truncated_backprop_steps_def)
  obtain X' y' where d: "generateData (random_choice L (k div n_batches)) = Inr (X', y')"
      "length X' = batch_size" "list_all (\<lambda>row. length row = 10000) X'"
      "length y' = batch_size" "list_all (\<lambda>row. length row = 10000) y'"
    using generateData_library [OF L] by blast
  have "X' = X" "y' = y" using d(1) f(2) by simp_all
  then show ?thesis using r f d by (auto simp: batch_size_def)
qed

text \<open>
  Claim C9. \<open>n_batches = 666\<close>, and for every batch index \<open>b < n_batches\<close> the slice
  \<open>[b*15, b*15+15)\<close> lies within the 10000 columns. In a run in which the library
  behaves, every fed batch of inputs and of labels therefore has shape (5, 15) and holds
  the columns \<open>b*15, ..., b*15+14\<close> of the epoch's data, all of them below 9990: the last
  10 columns are never fed.
\<close>

theorem slices_in_bounds:
  fixes L :: "'v library"
  assumes "library_ok L"
  shows "n_batches = 666
       \<and> total_series_length div batch_size = 10000
       \<and> (\<forall>b<n_batches. b * truncated_backprop_steps + truncated_backprop_steps
                          \<le> total_series_length div batch_size)
       \<and> (\<forall>k<n_epochs * n_batches.
            \<exists>X y fd r. generateData (random_choice L (k div n_batches)) = Inr (X, y)
              \<and> sess_runs (events (notebook L)) ! k = (k div n_batches, k mod n_batches, fd, r)
              \<and> np_shape (fd_X fd) = Some [5, 15] \<and> np_shape (fd_y fd) = Some [5, 15]
              \<and> (\<forall>i<5. \<forall>t<15.
                    fd_X fd ! i ! t = X ! i ! (k mod n_batches * 15 + t) \<and>
                    fd_y fd ! i ! t = y ! i ! (k mod n_batches * 15 + t) \<and>
                    k mod n_batches * 15 + t < 9990))"
proof -
  have 1: "\<forall>b<n_batches. b * truncated_backprop_steps + truncated_backprop_steps
                          \<le> total_series_length div batch_size"
    by (simp add: n_batches_eq truncated_backprop_steps_def total_series_length_def
          batch_size_def)
  have 2: "\<exists>X y fd r. generateData (random_choice L (k div n_batches)) = Inr (X, y)
              \<and> sess_runs (events (notebook L)) ! k = (k div n_batches, k mod n_batches, fd, r)
              \<and> np_shape (fd_X fd) = Some [5, 15] \<and> np_shape (fd_y fd) = Some [5, 15]
              \<and> (\<forall>i<5. \<forall>t<15.
                    fd_X fd ! i ! t = X ! i ! (k mod n_batches * 15 + t) \<and>
                    fd_y fd ! i ! t = y ! i ! (k mod n_batches * 15 + t) \<and>
                    k mod n_batches * 15 + t < 9990)"
    if k: "k < n_epochs * n_batches" for k
  proof -
    obtain X y fd r where s:
        "generateData (random_choice L (k div n_batches)) = Inr (X, y)"
        "sess_runs (events (notebook L)) ! k = (k div n_batches, k mod n_batches, fd, r)"
        "fd_X fd = column_slice X (k mod n_batches * 15) (k mod n_batches * 15 + 15)"
        "fd_y fd = column_slice y (k mod n_batches * 15) (k mod n_batches * 15 + 15)"
        "feed_check fd"
        "length X = 5" "list_all (\<lambda>row. length row = 10000) X"
        "length y = 5" "list_all (\<lambda>row. length row = 10000) y"
      using fed_slices [OF assms k] by blast
    have b: "k mod n_batches < 666" by (simp add: n_batches_eq)
    have sh: "np_shape (fd_X fd) = Some [5, 15]" "np_shape (fd_y fd) = Some [5, 15]"
      using s(5) by (simp_all add: feed_check_shapes)
    have el: "fd_X fd ! i ! t = X ! i ! (k mod n_batches * 15 + t) \<and>
              fd_y fd ! i ! t = y ! i ! (k mod n_batches * 15 + t) \<and>
              k mod n_batches * 15 + t < 9990" if i: "i < 5" and t: "t < 15" for i t
    proof -
      have lt: "k mod n_batches * 15 + t < 9990" using b t by simp
      have "length (X ! i) = 10000" "length (y ! i) = 10000"
        using s(6-9) i by (simp_all add: list_all_length)
      then show ?thesis
        unfolding s(3,4) using lt i t s(6,8) by (simp add: column_slice_nth)
    qed
    show ?thesis using s(1,2) sh el by blast
  qed
  show ?thesis
    using 1 2 by (simp add: n_batches_eq total_series_length_def batch_size_def)
qed

theorem slices_in_bounds_witness:
  "library_ok demo_library
   \<and> 665 * truncated_backprop_steps + truncated_backprop_steps
        \<le> total_series_length div batch_size
   \<and> (\<exists>X y fd r. generateData (random_choice demo_library 19) = Inr (X, y)
        \<and> sess_runs (events (notebook demo_library)) ! 13319 = (19, 665, fd, r)
        \<and> np_shape (fd_X fd) = Some [5, 15] \<and> np_shape (fd_y fd) = Some [5, 15]
        \<and> fd_X fd ! 4 ! 14 = X ! 4 ! 9989 \<and> fd_y fd ! 4 ! 14 = y ! 4 ! 9989)"
proof -
  note t = slices_in_bounds [OF demo_library_ok]
  have a: "(13319::nat) < n_epochs * n_batches" "13319 div n_batches = 19"
      "13319 mod n_batches = 665" "(665::nat) < n_batches"
    by (simp_all add: n_epochs_def n_batches_eq)
  have 1: "665 * truncated_backprop_steps + truncated_backprop_steps
        \<le> total_series_length div batch_size"
    using t a(4) by blast
  from t have "\<forall>k<n_epochs * n_batches.
            \<exists>X y fd r. generateData (random_choice demo_library (k div n_batches)) = Inr (X, y)
              \<and> sess_runs (events (notebook demo_library)) ! k
                   = (k div n_batches, k mod n_batches, fd, r)
              \<and> np_shape (fd_X fd) = Some [5, 15] \<and> np_shape (fd_y fd) = Some [5, 15]
              \<and> (\<forall>i<5. \<forall>t<15.
                    fd_X fd ! i ! t = X ! i ! (k mod n_batches * 15 + t) \<and>
                    fd_y fd ! i ! t = y ! i ! (k mod n_batches * 15 + t) \<and>
                    k mod n_batches * 15 + t < 9990)"
    by blast
  from this [rule_format, OF a(1)] obtain X y fd r where s:
      "generateData (random_choice demo_library 19) = Inr (X, y)"
      "sess_runs (events (notebook demo_library)) ! 13319 = (19, 665, fd, r)"
      "np_shape (fd_X fd) = Some [5, 15]" "np_shape (fd_y fd) = Some [5, 15]"
      "\<forall>i<5. \<forall>t<15. fd_X fd ! i ! t = X ! i ! (665 * 15 + t) \<and>
                    fd_y fd ! i ! t = y ! i ! (665 * 15 + t) \<and> 665 * 15 + t < 9990"
    unfolding a by blast
  have "fd_X fd ! 4 ! 14 = X ! 4 ! 9989 \<and> fd_y fd ! 4 ! 14 = y ! 4 ! 9989"
    using s(5) [rule_format, of 4 14] by simp
  then show ?thesis using 1 s(1-4) demo_library_ok by blast
qed

text \<open>
  Claim C10. Every element of both arrays returned by \<open>generateData\<close> lies in
  \<open>{0, ..., n_classes - 1} = {0, 1}\<close>, given that the sample of \<open>np.random.choice\<close> does;
  and in a run in which the library behaves every label fed through \<open>y_placeholder\<close> is
  such a class index.
\<close>

theorem labels_valid:
  fixes L :: "'v library"
  shows "n_classes = 2
       \<and> (random_choice_post n_classes total_series_length choice \<and>
            generateData choice = Inr (x, y) \<longrightarrow>
            list_all (list_all (\<lambda>v. 0 \<le> v \<and> v < int n_classes)) x \<and>
            list_all (list_all (\<lambda>v. 0 \<le> v \<and> v < int n_classes)) y)
       \<and> (library_ok L \<longrightarrow>
            (\<forall>c\<in>set (sess_runs (events (notebook L))).
               list_all (list_all (\<lambda>v. 0 \<le> v \<and> v < int n_classes)) (fd_y (fst (snd (snd c))))))"
proof -
  have 2: "list_all (list_all (\<lambda>v. 0 \<le> v \<and> v < int n_classes)) (fd_y (fst (snd (snd c))))"
    if L: "library_ok L" and c: "c \<in> set (sess_runs (events (notebook L)))" for c
  proof -
    let ?rs = "sess_runs (events (notebook L))"
    obtain k where k: "k < length ?rs" "c = ?rs ! k"
      using c by (auto simp: in_set_conv_nth)
    have kk: "k < n_epochs * n_batches" using k(1) notebook_calls [OF L] by simp
    obtain X y fd r where s:
        "generateData (random_choice L (k div n_batches)) = Inr (X, y)"
        "?rs ! k = (k div n_batches, k mod n_batches, fd, r)"
        "fd_y fd = column_slice y (k mod n_batches * 15) (k mod n_batches * 15 + 15)"
      using fed_slices [OF L kk] by blast
    have "random_choice_post n_classes total_series_length (random_choice L (k div n_batches))"
      using L by (simp add: library_ok_def)
    from generateData_range [OF this s(1)]
    have "list_all (list_all (\<lambda>v. 0 \<le> v \<and> v < int n_classes)) y" by simp
    then have "list_all (list_all (\<lambda>v. 0 \<le> v \<and> v < int n_classes)) (fd_y fd)"
      unfolding s(3) by (rule column_slice_all)
    then show ?thesis using k(2) s(2) by simp
  qed
  show ?thesis using generateData_range [of choice x y] 2 by (auto simp: n_classes_def)
qed

theorem labels_valid_witness:
  "random_choice_post n_classes total_series_length (replicate total_series_length 1)
   \<and> (\<exists>x y. generateData (replicate total_series_length 1) = Inr (x, y)
        \<and> list_all (list_all (\<lambda>v. 0 \<le> v \<and> v < int n_classes)) x
        \<and> list_all (list_all (\<lambda>v. 0 \<le> v \<and> v < int n_classes)) y)
   \<and> library_ok demo_library
   \<and> sess_runs (events (notebook demo_library)) ! 0
        \<in> set (sess_runs (events (notebook demo_library)))
   \<and> list_all (list_all (\<lambda>v. 0 \<le> v \<and> v < int n_classes))
        (fd_y (fst (snd (snd (sess_runs (events (notebook demo_library)) ! 0)))))"
proof -
  have p: "random_choice_post n_classes total_series_length (replicate total_series_length 1)"
    by (simp add: random_choice_post_def n_classes_def list_all_iff)
  obtain x y where g: "generateData (replicate total_series_length 1) = Inr (x, y)"
    using generateData_Inr [of "replicate total_series_length 1"] by auto
  have "0 < length (sess_runs (events (notebook demo_library)))"
    using notebook_calls [OF demo_library_ok] by (simp add: counts)
  then have m: "sess_runs (events (notebook demo_library)) ! 0
        \<in> set (sess_runs (events (notebook demo_library)))"
    by (rule nth_mem)
  show ?thesis
    using labels_valid [of "replicate total_series_length 1" x y demo_library]
      p g m demo_library_ok
    by blast
qed

section \<open>The sequence length a feed may have\<close>

text \<open>
  Claim C2, as amended. The network is built with the library's dynamic unrolling
  function, but the placeholders are declared with the fixed shape
  \<open>(batch_size, truncated_backprop_steps) = (5, 15)\<close>: a session run accepts a feed only
  if its input batch and its labels have shape (5, 15) and its two states shape (5, 20),
  and raises ValueError for an input batch of any other sequence length.
\<close>

theorem sequence_length_fixed:
  "static_shape X_placeholder = [Some 5, Some 15]
   \<and> (feed_check fd \<longleftrightarrow>
        np_shape (fd_X fd) = Some [5, 15] \<and> np_shape (fd_y fd) = Some [5, 15] \<and>
        np_shape (fd_cell_state fd) = Some [5, 20] \<and>
        np_shape (fd_hidden_state fd) = Some [5, 20])
   \<and> (np_shape (fd_X fd) \<noteq> Some [5, 15] \<longrightarrow> sess_run L v fd = Inl ValueError)
   \<and> (feed_check fd \<longrightarrow> sess_run L v fd = run_fetches L v fd)"
  using feed_check_shapes [of fd]
  by (simp add: sess_run_def X_placeholder_def batch_size_def truncated_backprop_steps_def)

lemma np_shape_replicate: "0 < r \<Longrightarrow> np_shape (replicate r (replicate n x)) = Some [r, n]"
  using np_shape_rect [of "replicate r (replicate n x)" n] by (simp add: list_all_iff)

theorem sequence_length_fixed_witness:
  "np_shape (fd_X \<lparr>fd_X = replicate 5 (replicate 10 1), fd_y = replicate 5 (replicate 10 1),
                   fd_cell_state = np_zeros 5 20, fd_hidden_state = np_zeros 5 20\<rparr>)
     \<noteq> Some [5, 15]
   \<and> sess_run demo_library 0
       \<lparr>fd_X = replicate 5 (replicate 10 1), fd_y = replicate 5 (replicate 10 1),
        fd_cell_state = np_zeros 5 20, fd_hidden_state = np_zeros 5 20\<rparr> = Inl ValueError
   \<and> feed_check \<lparr>fd_X = replicate 5 (replicate 15 1), fd_y = replicate 5 (replicate 15 1),
                 fd_cell_state = np_zeros 5 20, fd_hidden_state = np_zeros 5 20\<rparr>
   \<and> sess_run demo_library 0
       \<lparr>fd_X = replicate 5 (replicate 15 1), fd_y = replicate 5 (replicate 15 1),
        fd_cell_state = np_zeros 5 20, fd_hidden_state = np_zeros 5 20\<rparr>
     = run_fetches demo_library 0
       \<lparr>fd_X = replicate 5 (replicate 15 1), fd_y = replicate 5 (replicate 15 1),
        fd_cell_state = np_zeros 5 20, fd_hidden_state = np_zeros 5 20\<rparr>"
  using sequence_length_fixed [of "\<lparr>fd_X = replicate 5 (replicate 10 1),
          fd_y = replicate 5 (replicate 10 1),
          fd_cell_state = np_zeros 5 20, fd_hidden_state = np_zeros 5 20\<rparr>" demo_library 0]
    sequence_length_fixed [of "\<lparr>fd_X = replicate 5 (replicate 15 1),
          fd_y = replicate 5 (replicate 15 1),
          fd_cell_state = np_zeros 5 20, fd_hidden_state = np_zeros 5 20\<rparr>" demo_library 0]
  by (simp add: np_shape_replicate np_shape_zeros)

text \<open>
  The claim as stated fails: a batch of sequence length 10 is refused, the same batch
  with sequence length 15 is run.
\<close>

theorem other_sequence_length_rejected:
  "sess_run demo_library 0
       \<lparr>fd_X = replicate 5 (replicate 10 1), fd_y = replicate 5 (replicate 10 1),
        fd_cell_state = np_zeros 5 20, fd_hidden_state = np_zeros 5 20\<rparr> = Inl ValueError
   \<and> sess_run demo_library 0
       \<lparr>fd_X = replicate 5 (replicate 15 1), fd_y = replicate 5 (replicate 15 1),
        fd_cell_state = np_zeros 5 20, fd_hidden_state = np_zeros 5 20\<rparr>
     = Inr (0, 1, (np_zeros 5 20, np_zeros 5 20))"
  by (simp add: sess_run_def feed_check_shapes np_shape_replicate np_shape_zeros
        demo_library_def)

section \<open>The loss as a formula\<close>

lemma length_concat_rect:
  "\<forall>r\<in>set m. length r = c \<Longrightarrow> length (concat m) = length m * c"
  by (induction m) simp_all

lemma chunk_concat:
  "\<forall>r\<in>set m. length r = c \<Longrightarrow> i < length m \<Longrightarrow> take c (drop (i * c) (concat m)) = m ! i"
proof (induction m arbitrary: i)
  case Nil
  then show ?case by simp
next
  case (Cons r m)
  show ?case
  proof (cases i)
    case 0
    then show ?thesis using Cons.prems by simp
  next
    case (Suc i')
    have "drop (i * c) (r @ concat m) = drop (i' * c) (concat m)"
      using Cons.prems(1) Suc by simp
    then show ?thesis using Cons.IH [of i'] Cons.prems Suc by simp
  qed
qed

lemma concat_nth_rect:
  assumes "\<forall>r\<in>set m. length r = c" "p < length m * c"
  shows "concat m ! p = m ! (p div c) ! (p mod c)"
proof -
  have c: "0 < c" using assms(2) by (cases c) simp_all
  have d: "p div c < length m" using assms(2) c by (simp add: less_mult_imp_div_less)
  have "m ! (p div c) ! (p mod c) = take c (drop (p div c * c) (concat m)) ! (p mod c)"
    using chunk_concat [OF assms(1) d] by simp
  also have "\<dots> = drop (p div c * c) (concat m) ! (p mod c)"
    using c by simp
  also have "\<dots> = concat m ! (p div c * c + p mod c)"
  proof (rule nth_drop)
    have "p div c * c \<le> p" by simp
    also have "p \<le> length m * c" using assms(2) by simp
    finally show "p div c * c \<le> length (concat m)"
      unfolding length_concat_rect [OF assms(1)] .
  qed
  finally show ?thesis by simp
qed

lemma tf_reshape_cols_concat:
  assumes "\<forall>r\<in>set m. length r = c" "0 < c"
  shows "tf_reshape_cols c (concat m) = Inr m"
proof -
  have len: "length (concat m) = length m * c" by (rule length_concat_rect [OF assms(1)])
  have "map (\<lambda>i. take c (drop (i * c) (concat m))) [0..<length m] = map (\<lambda>i. m ! i) [0..<length m]"
    by (rule map_cong) (simp_all add: chunk_concat [OF assms(1)])
  then show ?thesis
    using assms(2) len by (simp add: tf_reshape_cols_def map_nth)
qed


lemma temp_rows:
  assumes "\<forall>seq\<in>set outputs. \<forall>h\<in>set seq. length h = 20"
  shows "temp outputs = Inr (concat outputs)"
proof -
  have "\<forall>h\<in>set (concat outputs). length h = n_hidden"
    using assms by (auto simp: n_hidden_def)
  then show ?thesis
    unfolding temp_def by (rule tf_reshape_cols_concat) (simp add: n_hidden_def)
qed

lemma logits_rows:
  assumes rows: "\<forall>h\<in>set rows. length h = 20" and ne: "rows \<noteq> []"
    and V: "length V = 20" "\<forall>row\<in>set V. length row = 2"
    and c: "length c = 2"
  shows "(case tf_matmul rows V of Inl e \<Rightarrow> Inl e | Inr tv \<Rightarrow> tf_add_bias tv c)
           = Inr (map (\<lambda>h. map (\<lambda>k. (\<Sum>j\<leftarrow>[0..<20]. h ! j * V ! j ! k) + c ! k) [0..<2]) rows)"
proof -
  have nc: "n_cols V = 2" using V by (cases V) (simp_all add: n_cols_def)
  let ?tv = "map (\<lambda>h. map (\<lambda>k. \<Sum>j\<leftarrow>[0..<20]. h ! j * V ! j ! k) [0..<2]) rows"
  have mm: "tf_matmul rows V = Inr ?tv"
    using rows V nc by (simp add: tf_matmul_def list_all_iff)
  have "n_cols ?tv = 2"
    using ne by (cases rows) (simp_all add: n_cols_def)
  then have "tf_add_bias ?tv c
          = Inr (map (\<lambda>row. map (\<lambda>k. row ! k + c ! k) [0..<2]) ?tv)"
    using c by (auto simp: tf_add_bias_def list_all_iff Let_def simp del: upt_Suc)
  also have "map (\<lambda>row. map (\<lambda>k. row ! k + c ! k) [0..<2]) ?tv
          = map (\<lambda>h. map (\<lambda>k. (\<Sum>j\<leftarrow>[0..<20]. h ! j * V ! j ! k) + c ! k) [0..<2]) rows"
    by (simp add: comp_def del: upt_Suc)
  finally show ?thesis using mm by simp
qed

text \<open>
  Claim C5. For unrolled outputs of shape (5, 15, 20), labels of shape (5, 15), \<open>V\<close> of
  shape (20, 2) and \<open>c\<close> of length 2, the loss is the mean over the
  \<open>batch_size * truncated_backprop_steps = 75\<close> positions \<open>p\<close> (row-major, batch
  \<open>p div 15\<close>, time step \<open>p mod 15\<close>) of the library cross entropy between the label at
  that position and the logits \<open>outputs[p] \<cdot> V + c\<close> at that position.
\<close>

theorem loss_formula:
  assumes "length outputs = 5"
    and "\<forall>seq\<in>set outputs. length seq = 15 \<and> (\<forall>h\<in>set seq. length h = 20)"
    and "length y = 5" and "\<forall>row\<in>set y. length row = 15"
    and "length V = 20" and "\<forall>row\<in>set V. length row = 2"
    and "length c = 2"
  shows "batch_size * truncated_backprop_steps = 75 \<and> n_hidden = 20 \<and> n_classes = 2
       \<and> loss xent outputs y V c
           = Inr ((\<Sum>p\<leftarrow>[0..<75].
                     xent (y ! (p div 15) ! (p mod 15))
                       (map (\<lambda>k. (\<Sum>j\<leftarrow>[0..<20]. outputs ! (p div 15) ! (p mod 15) ! j * V ! j ! k)
                                  + c ! k) [0..<2])) / 75)"
proof -
  let ?rows = "concat outputs"
  let ?logit = "\<lambda>h. map (\<lambda>k. (\<Sum>j\<leftarrow>[0..<20]. h ! j * V ! j ! k) + c ! k) [0..<2]"
  have o15: "\<forall>seq\<in>set outputs. length seq = 15" using assms(2) by blast
  have o20: "\<forall>seq\<in>set outputs. \<forall>h\<in>set seq. length h = 20" using assms(2) by blast
  have lr: "length ?rows = 75" using length_concat_rect [OF o15] assms(1) by simp
  have ly: "length (concat y) = 75" using length_concat_rect [OF assms(4)] assms(3) by simp
  have r20: "\<forall>h\<in>set ?rows. length h = 20" using o20 by auto
  have rne: "?rows \<noteq> []" using lr by (cases ?rows) simp_all
  have lg: "l outputs V c = Inr (map ?logit ?rows)"
    unfolding l_def temp_rows [OF o20]
    using logits_rows [OF r20 rne assms(5,6,7)] by simp
  have ce: "sparse_softmax_cross_entropy_with_logits xent (y_temp y) (map ?logit ?rows)
              = Inr (map2 xent (concat y) (map ?logit ?rows))"
    using lr ly by (simp add: sparse_softmax_cross_entropy_with_logits_def y_temp_def)
  have z: "zip (concat y) (map ?logit ?rows)
             = map (\<lambda>p. (concat y ! p, map ?logit ?rows ! p)) [0..<75]"
    using zip_as_map [of "concat y" "map ?logit ?rows"] lr ly by simp
  have "map2 xent (concat y) (map ?logit ?rows)
          = map (\<lambda>p. xent (concat y ! p) (map ?logit ?rows ! p)) [0..<75]"
    unfolding z by (simp add: comp_def del: upt_Suc)
  also have "\<dots> = map (\<lambda>p. xent (y ! (p div 15) ! (p mod 15))
                            (?logit (outputs ! (p div 15) ! (p mod 15)))) [0..<75]"
  proof (rule map_cong [OF refl])
    fix p assume "p \<in> set [0..<75]"
    then have p: "p < 75" by simp
    have 1: "concat y ! p = y ! (p div 15) ! (p mod 15)"
      using concat_nth_rect [OF assms(4), of p] assms(3) p by simp
    have 2: "?rows ! p = outputs ! (p div 15) ! (p mod 15)"
      using concat_nth_rect [OF o15, of p] assms(1) p by simp
    have 3: "map ?logit ?rows ! p = ?logit (?rows ! p)" using p lr by simp
    show "xent (concat y ! p) (map ?logit ?rows ! p)
            = xent (y ! (p div 15) ! (p mod 15)) (?logit (outputs ! (p div 15) ! (p mod 15)))"
      unfolding 1 3 2 ..
  qed
  finally have m: "map2 xent (concat y) (map ?logit ?rows)
          = map (\<lambda>p. xent (y ! (p div 15) ! (p mod 15))
                            (?logit (outputs ! (p div 15) ! (p mod 15)))) [0..<75]" .
  have "loss xent outputs y V c = Inr (reduce_mean (map2 xent (concat y) (map ?logit ?rows)))"
    unfolding loss_def lg using ce by simp
  also have "reduce_mean (map2 xent (concat y) (map ?logit ?rows))
      = (\<Sum>p\<leftarrow>[0..<75]. xent (y ! (p div 15) ! (p mod 15))
                            (?logit (outputs ! (p div 15) ! (p mod 15)))) / 75"
    unfolding m reduce_mean_def by simp
  finally show ?thesis
    by (simp add: batch_size_def truncated_backprop_steps_def n_hidden_def n_classes_def
          del: upt_Suc)
qed


theorem loss_formula_witness:
  "length (replicate 5 (replicate 15 (replicate 20 (1::real)))) = 5
   \<and> list_all (\<lambda>seq. length seq = 15 \<and> list_all (\<lambda>h. length h = 20) seq)
        (replicate 5 (replicate 15 (replicate 20 (1::real))))
   \<and> length (replicate 5 (replicate 15 (1::int))) = 5
   \<and> list_all (\<lambda>row. length row = 15) (replicate 5 (replicate 15 (1::int)))
   \<and> length (replicate 20 [1, - 1 :: real]) = 20
   \<and> list_all (\<lambda>row. length row = 2) (replicate 20 [1, - 1 :: real])
   \<and> loss softmax_cross_entropy (replicate 5 (replicate 15 (replicate 20 1)))
        (replicate 5 (replicate 15 1)) (replicate 20 [1, - 1]) [0, 0]
       = Inr ((\<Sum>p\<leftarrow>[0..<75].
                 softmax_cross_entropy (replicate 5 (replicate 15 1) ! (p div 15) ! (p mod 15))
                   (map (\<lambda>k. (\<Sum>j\<leftarrow>[0..<20].
                                  replicate 5 (replicate 15 (replicate 20 1)) ! (p div 15)
                                    ! (p mod 15) ! j * replicate 20 [1, - 1] ! j ! k)
                              + [0, 0] ! k) [0..<2])) / 75)"
proof -
  have "loss softmax_cross_entropy (replicate 5 (replicate 15 (replicate 20 1)))
        (replicate 5 (replicate 15 1)) (replicate 20 [1, - 1]) [0, 0]
       = Inr ((\<Sum>p\<leftarrow>[0..<75].
                 softmax_cross_entropy (replicate 5 (replicate 15 1) ! (p div 15) ! (p mod 15))
                   (map (\<lambda>k. (\<Sum>j\<leftarrow>[0..<20].
                                  replicate 5 (replicate 15 (replicate 20 1)) ! (p div 15)
                                    ! (p mod 15) ! j * replicate 20 [1, - 1] ! j ! k)
                              + [0, 0] ! k) [0..<2])) / 75)"
    by (rule loss_formula [of "replicate 5 (replicate 15 (replicate 20 1))"
          "replicate 5 (replicate 15 1)" "replicate 20 [1, - 1]" "[0, 0]" softmax_cross_entropy,
          THEN conjunct2, THEN conjunct2, THEN conjunct2])
       simp_all
  then show ?thesis by (simp add: list_all_iff)
qed

end
